theory Spec2Isabelle
  imports
    Main
    "HOL-Library.Sublist"
    "HOL-Library.AList"
    "HOL-Library.Multiset"
    "HOL-Library.Char_ord"
    "HOL-Library.List_Lexorder"
begin

section \<open>The schema parser of altair: JSON values and the Python primitives it uses\<close>

text \<open>
  The program \<^verbatim>\<open>_schema_parser.py\<close> reads a JSON document with \<^verbatim>\<open>json.load\<close> and
  renders Python source text from it. A JSON value is what \<^verbatim>\<open>json.load\<close> returns:
  \<^verbatim>\<open>None\<close>, a \<^verbatim>\<open>bool\<close>, an \<^verbatim>\<open>int\<close>, a \<^verbatim>\<open>float\<close>, a \<^verbatim>\<open>str\<close>, a \<^verbatim>\<open>list\<close> or a
  \<^verbatim>\<open>dict\<close> with string keys. The built-in operations are those of Python 3.

  \<^item> A \<^verbatim>\<open>float\<close> is identified with the text \<^verbatim>\<open>repr\<close> prints for it (\<^verbatim>\<open>repr\<close> of a float
    round-trips, so this loses nothing); no float arithmetic is done by the program.
  \<^item> A \<^verbatim>\<open>str\<close> is a list of code points; \<open>char\<close> has 256 values, so the model covers
    text in the Latin-1 range, compared code point by code point as Python does.
  \<^item> A \<^verbatim>\<open>dict\<close> is an association list in insertion order. The keys of a \<^verbatim>\<open>dict\<close> are
    distinct; where a statement depends on that, it says so (\<open>distinct (map fst kvs)\<close>).
\<close>

datatype json =
    JNull
  | JBool bool
  | JInt int
  | JFloat string
  | JStr string
  | JArr "json list"
  | JObj "(string \<times> json) list"

text \<open>The exceptions the program can raise, by class; \<^verbatim>\<open>KeyError\<close> carries the key and
  \<^verbatim>\<open>NotImplementedError\<close> the text of its argument.\<close>

datatype error =
    KeyError string
  | TypeError
  | AttributeError
  | ValueError
  | NotImplementedError string

text \<open>Sequencing: the second step runs on the value of the first, and an exception of the
  first is the exception of the whole.\<close>

definition and_then :: "error + 'a \<Rightarrow> ('a \<Rightarrow> error + 'b) \<Rightarrow> error + 'b" where
  "and_then m f = (case m of Inl e \<Rightarrow> Inl e | Inr v \<Rightarrow> f v)"

lemma and_then_Inl [simp]: "and_then (Inl e) f = Inl e"
  by (simp add: and_then_def)

lemma and_then_Inr [simp]: "and_then (Inr v) f = f v"
  by (simp add: and_then_def)

lemma and_then_cong [fundef_cong]:
  "m = m' \<Longrightarrow> (\<And>v. m' = Inr v \<Longrightarrow> f v = f' v) \<Longrightarrow> and_then m f = and_then m' f'"
  by (cases m') (simp_all add: and_then_def)

lemma and_then_eq_Inr: "and_then m f = Inr r \<longleftrightarrow> (\<exists>v. m = Inr v \<and> f v = Inr r)"
  by (cases m) simp_all

lemma and_then_eq_Inl:
  "and_then m f = Inl e \<longleftrightarrow> m = Inl e \<or> (\<exists>v. m = Inr v \<and> f v = Inl e)"
  by (cases m) simp_all

subsection \<open>Subscription, membership, iteration\<close>

text \<open>\<^verbatim>\<open>d[k]\<close> for a string \<open>k\<close>: a \<^verbatim>\<open>dict\<close> looks the key up (\<^verbatim>\<open>KeyError\<close> when it is
  missing); every other JSON value raises \<^verbatim>\<open>TypeError\<close> (a list or a string wants an
  integer index, the others are not subscriptable).\<close>

definition getitem :: "json \<Rightarrow> string \<Rightarrow> error + json" where
  "getitem d k =
     (case d of
        JObj kvs \<Rightarrow> (case map_of kvs k of None \<Rightarrow> Inl (KeyError k) | Some v \<Rightarrow> Inr v)
      | _ \<Rightarrow> Inl TypeError)"

text \<open>\<^verbatim>\<open>k in d\<close> for a string \<open>k\<close>: key membership for a \<^verbatim>\<open>dict\<close>, element membership
  for a \<^verbatim>\<open>list\<close>, the substring test for a \<^verbatim>\<open>str\<close>, \<^verbatim>\<open>TypeError\<close> otherwise.\<close>

definition contains :: "string \<Rightarrow> json \<Rightarrow> error + bool" where
  "contains k d =
     (case d of
        JObj kvs \<Rightarrow> Inr (map_of kvs k \<noteq> None)
      | JArr xs \<Rightarrow> Inr (JStr k \<in> set xs)
      | JStr s \<Rightarrow> Inr (sublist k s)
      | _ \<Rightarrow> Inl TypeError)"

text \<open>\<^verbatim>\<open>for x in v\<close>: the elements of a list, the keys of a dict, the characters of a
  string; the other values are not iterable.\<close>

definition iter_json :: "json \<Rightarrow> error + json list" where
  "iter_json v =
     (case v of
        JArr xs \<Rightarrow> Inr xs
      | JObj kvs \<Rightarrow> Inr (map (\<lambda>kv. JStr (fst kv)) kvs)
      | JStr s \<Rightarrow> Inr (map (\<lambda>c. JStr [c]) s)
      | _ \<Rightarrow> Inl TypeError)"

subsection \<open>Strings: \<^verbatim>\<open>join\<close>, \<^verbatim>\<open>split\<close>, \<^verbatim>\<open>rstrip\<close>, \<^verbatim>\<open>lower\<close>\<close>

text \<open>\<^verbatim>\<open>sep.join(xs)\<close>.\<close>

fun str_join :: "string \<Rightarrow> string list \<Rightarrow> string" where
  "str_join sep [] = []"
| "str_join sep [x] = x"
| "str_join sep (x # y # ys) = x @ sep @ str_join sep (y # ys)"

text \<open>\<^verbatim>\<open>s.split(sep)\<close>: the pieces of \<open>s\<close> between the occurrences of \<open>sep\<close>, found from
  the left and not overlapping. Python raises \<^verbatim>\<open>ValueError\<close> for an empty separator; the
  program only splits at the literals \<^verbatim>\<open>'(e.g.'\<close>, \<^verbatim>\<open>'.'\<close> and \<^verbatim>\<open>'/'\<close>, and the model
  returns \<open>[s]\<close> for an empty one.\<close>

function py_split :: "string \<Rightarrow> string \<Rightarrow> string list" where
  "py_split sep s =
     (if sep = [] then [s]
      else if s = [] then [[]]
      else if prefix sep s then [] # py_split sep (drop (length sep) s)
      else (case py_split sep (tl s) of
              [] \<Rightarrow> [[hd s]]
            | p # ps \<Rightarrow> (hd s # p) # ps))"
  by pat_completeness auto
termination
  by (relation "measure (\<lambda>(sep, s). length s)") auto

declare py_split.simps [simp del]

text \<open>\<^verbatim>\<open>s.rstrip()\<close> removes trailing whitespace: the characters for which
  \<^verbatim>\<open>str.isspace\<close> holds, in the Latin-1 range.\<close>

definition is_space :: "char \<Rightarrow> bool" where
  "is_space c =
     (let n = (of_char c :: nat)
      in (9 \<le> n \<and> n \<le> 13) \<or> (28 \<le> n \<and> n \<le> 32) \<or> n = 133 \<or> n = 160)"

definition rstrip :: "string \<Rightarrow> string" where
  "rstrip s = rev (dropWhile is_space (rev s))"

text \<open>\<^verbatim>\<open>s.lower()\<close> in the Latin-1 range: \<^verbatim>\<open>A\<close> to \<^verbatim>\<open>Z\<close> and the accented capitals
  (0xC0 to 0xDE but the multiplication sign 0xD7) move up by 32.\<close>

definition lower_char :: "char \<Rightarrow> char" where
  "lower_char c =
     (let n = (of_char c :: nat)
      in if (65 \<le> n \<and> n \<le> 90) \<or> (192 \<le> n \<and> n \<le> 222 \<and> n \<noteq> 215)
         then char_of (n + 32) else c)"

definition lower :: "string \<Rightarrow> string" where
  "lower s = map lower_char s"

subsection \<open>\<^verbatim>\<open>str\<close> and \<^verbatim>\<open>repr\<close> of a JSON value\<close>

text \<open>Decimal digits of a natural number, and \<^verbatim>\<open>str\<close> of an \<^verbatim>\<open>int\<close>.\<close>

fun digits :: "nat \<Rightarrow> string" where
  "digits n =
     (if n < 10 then [char_of (48 + n)]
      else digits (n div 10) @ [char_of (48 + n mod 10)])"

declare digits.simps [simp del]

definition str_int :: "int \<Rightarrow> string" where
  "str_int i = (if i < 0 then CHR ''-'' # digits (nat (- i)) else digits (nat i))"

text \<open>\<^verbatim>\<open>repr\<close> of a \<^verbatim>\<open>str\<close>: single quotes, unless the text holds a single quote and no
  double quote; the quote and the backslash are escaped, tab, newline and carriage
  return are written \<^verbatim>\<open>\t\<close>, \<^verbatim>\<open>\n\<close>, \<^verbatim>\<open>\r\<close>, and every other character that is not
  printable as \<^verbatim>\<open>\xNN\<close>.\<close>

definition hex_digit :: "nat \<Rightarrow> char" where
  "hex_digit n = (if n < 10 then char_of (48 + n) else char_of (87 + n))"

definition printable :: "char \<Rightarrow> bool" where
  "printable c =
     (let n = (of_char c :: nat)
      in (32 \<le> n \<and> n \<le> 126) \<or> (161 \<le> n \<and> n \<noteq> 173))"

definition repr_char :: "char \<Rightarrow> char \<Rightarrow> string" where
  "repr_char quote c =
     (if c = quote \<or> c = CHR 0x5C then [CHR 0x5C, c]
      else if c = CHR 0x09 then [CHR 0x5C, CHR ''t'']
      else if c = CHR 0x0A then [CHR 0x5C, CHR ''n'']
      else if c = CHR 0x0D then [CHR 0x5C, CHR ''r'']
      else if printable c then [c]
      else [CHR 0x5C, CHR ''x'', hex_digit (of_char c div 16), hex_digit (of_char c mod 16)])"

definition repr_str :: "string \<Rightarrow> string" where
  "repr_str s =
     (let quote = (if CHR 0x27 \<in> set s \<and> CHR 0x22 \<notin> set s then CHR 0x22 else CHR 0x27)
      in quote # concat (map (repr_char quote) s) @ [quote])"

fun py_repr :: "json \<Rightarrow> string" where
  "py_repr JNull = ''None''"
| "py_repr (JBool b) = (if b then ''True'' else ''False'')"
| "py_repr (JInt i) = str_int i"
| "py_repr (JFloat r) = r"
| "py_repr (JStr s) = repr_str s"
| "py_repr (JArr xs) = ''['' @ str_join '', '' (map py_repr xs) @ '']''"
| "py_repr (JObj kvs) =
     ''{'' @ str_join '', '' (map (\<lambda>kv. repr_str (fst kv) @ '': '' @ py_repr (snd kv)) kvs) @ ''}''"

text \<open>\<^verbatim>\<open>str(v)\<close>, which \<^verbatim>\<open>'{0}'.format(v)\<close> inserts: the text itself for a \<^verbatim>\<open>str\<close>,
  \<^verbatim>\<open>repr(v)\<close> for the other JSON values.\<close>

definition py_str :: "json \<Rightarrow> string" where
  "py_str v = (case v of JStr s \<Rightarrow> s | _ \<Rightarrow> py_repr v)"

lemma py_str_JStr: "py_str (JStr s) = s"
  by (simp add: py_str_def)

section \<open>\<^verbatim>\<open>SchemaDefinition\<close>: the helpers shared by both kinds of definition\<close>

definition triple_quote :: string where
  "triple_quote = [CHR 0x22, CHR 0x22, CHR 0x22]"

definition file_comment :: string where
  "file_comment =
     ''# This file auto-generated by `_schema_parser.py`.\<newline># Do not modify this file directly.''"

text \<open>\<^verbatim>\<open>test_template.format(name=name)\<close>.\<close>

definition test_template :: "string \<Rightarrow> string" where
  "test_template name =
     ''from ... import '' @ name @ ''\<newline>\<newline>\<newline>def test_'' @ name
       @ ''():\<newline>    obj = '' @ name @ ''()\<newline>''"

text \<open>\<^verbatim>\<open>format_help_string\<close>: \<^verbatim>\<open>split\<close> and \<^verbatim>\<open>rstrip\<close> are methods of \<^verbatim>\<open>str\<close>, so any
  other JSON value raises \<^verbatim>\<open>AttributeError\<close>. \<^verbatim>\<open>split\<close> never returns an empty list
  (\<open>py_split_nonempty\<close> below), so \<^verbatim>\<open>[0]\<close> is its head.\<close>

definition format_help_string :: "json \<Rightarrow> bool \<Rightarrow> error + string" where
  "format_help_string help_str summarize =
     (case help_str of
        JStr s \<Rightarrow>
          (let s' = (if summarize then hd (py_split ''.'' (hd (py_split ''(e.g.'' s))) else s)
           in Inr (triple_quote @ rstrip s' @ ''.'' @ triple_quote))
      | _ \<Rightarrow> Inl AttributeError)"

text \<open>\<^verbatim>\<open>kwds_to_str\<close>: the keywords are a \<^verbatim>\<open>dict\<close> from names to values; \<^verbatim>\<open>sorted\<close>
  orders its items by key (the keys of a \<^verbatim>\<open>dict\<close> are distinct, so the values are never
  compared), and \<^verbatim>\<open>help\<close> goes last.\<close>

definition kwds_to_str :: "(string \<times> json) list \<Rightarrow> string" where
  "kwds_to_str kwds =
     (let vals = str_join '', ''
            (map (\<lambda>kv. fst kv @ ''='' @ py_str (snd kv))
               (filter (\<lambda>kv. fst kv \<noteq> ''help'') (sort_key fst kwds)))
      in (case map_of kwds ''help'' of
            Some h \<Rightarrow> vals @ '', help='' @ py_str h
          | None \<Rightarrow> vals))"

text \<open>\<^verbatim>\<open>get_attr_kwds\<close>; the assignment \<^verbatim>\<open>kwds[k] = v\<close> is \<open>AList.update\<close>.\<close>

definition get_attr_kwds :: "json \<Rightarrow> error + (string \<times> json) list" where
  "get_attr_kwds attr_dict =
     (let kwds = [(''allow_none'', JStr ''True''), (''default_value'', JStr ''None'')]
      in and_then (contains ''description'' attr_dict) (\<lambda>has_description.
         and_then (if has_description
                   then and_then (getitem attr_dict ''description'') (\<lambda>d.
                        and_then (format_help_string d True) (\<lambda>h.
                        Inr (AList.update ''help'' (JStr h) kwds)))
                   else Inr kwds) (\<lambda>kwds.
         and_then (contains ''minimum'' attr_dict) (\<lambda>has_minimum.
         and_then (if has_minimum
                   then and_then (getitem attr_dict ''minimum'') (\<lambda>v.
                        Inr (AList.update ''min'' v kwds))
                   else Inr kwds) (\<lambda>kwds.
         and_then (contains ''maximum'' attr_dict) (\<lambda>has_maximum.
         if has_maximum
         then and_then (getitem attr_dict ''maximum'') (\<lambda>v.
              Inr (AList.update ''max'' v kwds))
         else Inr kwds))))))"

section \<open>\<^verbatim>\<open>StringDefinition\<close> and \<^verbatim>\<open>ObjectDefinition\<close>\<close>

text \<open>The two classes as records of their fields. \<^verbatim>\<open>imports\<close> is the only field the
  methods change: every function that may append to it returns the object with its
  result. An exception ends the run, so the object is not returned with an error.\<close>

record string_definition =
  sd_name :: string
  sd_schema :: json
  sd_definition :: json
  sd_imports :: "string list"

record object_definition =
  od_name :: string
  od_schema :: json
  od_definition :: json
  od_prop_dict :: json
  od_imports :: "string list"

text \<open>\<^verbatim>\<open>schema['definitions'][name]\<close>.\<close>

definition lookup_definition :: "json \<Rightarrow> string \<Rightarrow> error + json" where
  "lookup_definition schema name =
     and_then (getitem schema ''definitions'') (\<lambda>defs. getitem defs name)"

definition StringDefinition_init :: "string \<Rightarrow> json \<Rightarrow> error + string_definition" where
  "StringDefinition_init name schema =
     and_then (lookup_definition schema name) (\<lambda>d.
     Inr \<lparr>sd_name = name, sd_schema = schema, sd_definition = d,
          sd_imports = [''import traitlets as T'']\<rparr>)"

definition ObjectDefinition_init :: "string \<Rightarrow> json \<Rightarrow> error + object_definition" where
  "ObjectDefinition_init name schema =
     and_then (lookup_definition schema name) (\<lambda>d.
     and_then (getitem d ''properties'') (\<lambda>props.
     Inr \<lparr>od_name = name, od_schema = schema, od_definition = d, od_prop_dict = props,
          od_imports = [''import traitlets as T'', ''from ..baseobject import BaseObject'']\<rparr>))"

subsection \<open>\<^verbatim>\<open>StringDefinition.code\<close>\<close>

text \<open>\<^verbatim>\<open>enum_template.format(cls=cls, values=values)\<close> and
  \<^verbatim>\<open>string_template.format(cls=cls)\<close>; \<open>values\<close> is the text \<^verbatim>\<open>format\<close> inserts.\<close>

definition enum_template :: "string \<Rightarrow> string \<Rightarrow> string" where
  "enum_template cls values =
     ''class '' @ cls @ ''(T.Enum):\<newline>''
     @ ''    def __init__(self, default_value=T.Undefined, **metadata):\<newline>''
     @ ''        super('' @ cls @ '', self).__init__('' @ values @ '',\<newline>''
     @ ''                                    default_value=default_value,\<newline>''
     @ ''                                    **metadata)''"

definition string_template :: "string \<Rightarrow> string" where
  "string_template cls = ''class '' @ cls @ ''(T.Unicode):\<newline>    pass''"

definition StringDefinition_code :: "string_definition \<Rightarrow> error + string" where
  "StringDefinition_code self =
     and_then (contains ''enum'' (sd_definition self)) (\<lambda>has_enum.
       if has_enum
       then and_then (getitem (sd_definition self) ''enum'') (\<lambda>values.
            Inr (enum_template (sd_name self) (py_str values)))
       else Inr (string_template (sd_name self)))"

subsection \<open>\<^verbatim>\<open>ObjectDefinition\<close>: resolving one attribute\<close>

definition class_template :: "string \<Rightarrow> string" where
  "class_template name = ''class '' @ name @ ''(BaseObject):\<newline>''"

definition attr_template :: "string \<Rightarrow> string \<Rightarrow> string" where
  "attr_template a b = ''    '' @ a @ '' = '' @ b @ ''\<newline>''"

text \<open>\<^verbatim>\<open>instance_str(cls, *args, **kwds)\<close>.\<close>

definition instance_str :: "string \<Rightarrow> string list \<Rightarrow> (string \<times> json) list \<Rightarrow> string" where
  "instance_str cls args kwds =
     (let args' = (if args \<noteq> [] then str_join '', '' (sort args) @ '', '' else [])
      in ''T.'' @ cls @ ''('' @ args' @ kwds_to_str kwds @ '')'')"

text \<open>The import line \<^verbatim>\<open>ref_attribute\<close> appends for a target.\<close>

definition import_line :: "string \<Rightarrow> string" where
  "import_line name = ''from .'' @ lower name @ '' import '' @ name"

text \<open>\<^verbatim>\<open>_, _, name = attr_dict['$ref'].split('/')\<close>: \<^verbatim>\<open>split\<close> is a method of \<^verbatim>\<open>str\<close>
  (\<^verbatim>\<open>AttributeError\<close> for another value), and the unpacking raises \<^verbatim>\<open>ValueError\<close> unless
  there are exactly three pieces.\<close>

definition ref_name :: "json \<Rightarrow> error + string" where
  "ref_name r =
     (case r of
        JStr s \<Rightarrow> (case py_split ''/'' s of [a, b, name] \<Rightarrow> Inr name | _ \<Rightarrow> Inl ValueError)
      | _ \<Rightarrow> Inl AttributeError)"

text \<open>\<^verbatim>\<open>ref_attribute\<close>: the import is appended before the target is looked up.\<close>

definition ref_attribute :: "object_definition \<Rightarrow> json \<Rightarrow> error + (string \<times> object_definition)" where
  "ref_attribute self attr_dict =
     and_then (get_attr_kwds attr_dict) (\<lambda>kwds.
     and_then (getitem attr_dict ''$ref'') (\<lambda>r.
     and_then (ref_name r) (\<lambda>name.
     (let self' = self\<lparr>od_imports := od_imports self @ [import_line name]\<rparr>
      in and_then (lookup_definition (od_schema self') name) (\<lambda>d.
         and_then (getitem d ''type'') (\<lambda>reftype.
           if reftype = JStr ''object''
           then Inr (instance_str ''Instance'' [name] kwds, self')
           else if reftype = JStr ''string''
           then Inr (name @ ''('' @ kwds_to_str kwds @ '')'', self')
           else Inl (NotImplementedError
                       (''type = '' @ [CHR 0x27] @ py_str reftype @ [CHR 0x27]))))))))"

text \<open>What the recursion of \<^verbatim>\<open>any_attribute\<close> descends on: a nested descriptor is
  \<^verbatim>\<open>attr_dict['items']\<close> or an element of the iteration over \<^verbatim>\<open>attr_dict['oneOf']\<close>, and
  a string that comes out of an iteration is never subscripted successfully.\<close>

fun jsize :: "json \<Rightarrow> nat" where
  "jsize (JStr s) = length s"
| "jsize (JArr xs) = Suc (sum_list (map (\<lambda>x. Suc (jsize x)) xs))"
| "jsize (JObj kvs) = Suc (sum_list (map (\<lambda>kv. Suc (jsize (snd kv))) kvs))"
| "jsize _ = 0"

definition attr_size :: "json \<Rightarrow> nat" where
  "attr_size a = (case a of JStr s \<Rightarrow> 0 | _ \<Rightarrow> jsize a)"

definition attrs_size :: "json list \<Rightarrow> nat" where
  "attrs_size xs = sum_list (map (\<lambda>x. Suc (attr_size x)) xs)"

lemma attr_size_le_jsize: "attr_size a \<le> jsize a"
  by (cases a) (simp_all add: attr_size_def)

lemma attrs_size_le: "attrs_size xs \<le> sum_list (map (\<lambda>x. Suc (jsize x)) xs)"
  unfolding attrs_size_def
  by (induction xs) (simp_all add: attr_size_le_jsize add_le_mono)

lemma jsize_map_of:
  "map_of kvs k = Some v \<Longrightarrow> jsize v < sum_list (map (\<lambda>kv. Suc (jsize (snd kv))) kvs)"
  by (induction kvs) (auto split: if_splits)

lemma getitem_attr_size:
  assumes "getitem a k = Inr v"
  shows "jsize v < attr_size a"
proof (cases a)
  case (JObj kvs)
  with assms have "map_of kvs k = Some v"
    by (simp add: getitem_def split: option.splits)
  then have "jsize v < sum_list (map (\<lambda>kv. Suc (jsize (snd kv))) kvs)"
    by (rule jsize_map_of)
  with JObj show ?thesis by (simp add: attr_size_def)
qed (use assms in \<open>simp_all add: getitem_def\<close>)

lemma iter_json_attrs_size:
  assumes "iter_json v = Inr xs"
  shows "attrs_size xs \<le> jsize v"
proof (cases v)
  case (JArr ys)
  with assms have "xs = ys" by (simp add: iter_json_def)
  with JArr attrs_size_le [of ys] show ?thesis by simp
next
  case (JObj kvs)
  with assms have xs: "xs = map (\<lambda>kv. JStr (fst kv)) kvs" by (simp add: iter_json_def)
  have "attrs_size (map (\<lambda>kv. JStr (fst kv)) kvs) \<le> sum_list (map (\<lambda>kv. Suc (jsize (snd kv))) kvs)"
    by (induction kvs) (simp_all add: attrs_size_def attr_size_def)
  with JObj xs show ?thesis by simp
next
  case (JStr s)
  with assms have xs: "xs = map (\<lambda>c. JStr [c]) s" by (simp add: iter_json_def)
  have "attrs_size (map (\<lambda>c. JStr [c]) s) = length s"
    by (induction s) (simp_all add: attrs_size_def attr_size_def)
  with JStr xs show ?thesis by simp
qed (use assms in \<open>simp_all add: iter_json_def\<close>)

text \<open>\<^verbatim>\<open>any_attribute\<close>, \<^verbatim>\<open>type_attribute\<close> and \<^verbatim>\<open>oneof_attribute\<close>. The generator of
  \<^verbatim>\<open>oneof_attribute\<close> is consumed by \<^verbatim>\<open>sorted\<close>, which resolves the alternatives from
  left to right (\<open>oneof_types\<close>), each on the object the one before it left. The
  recursion follows the nesting of the descriptor and ends (the termination proof
  below); the interpreter's limit on the depth of recursion is not modelled.\<close>

function any_attribute :: "object_definition \<Rightarrow> json \<Rightarrow> error + (string \<times> object_definition)"
  and type_attribute :: "object_definition \<Rightarrow> json \<Rightarrow> error + (string \<times> object_definition)"
  and oneof_attribute :: "object_definition \<Rightarrow> json \<Rightarrow> error + (string \<times> object_definition)"
  and oneof_types :: "object_definition \<Rightarrow> json list \<Rightarrow> error + (string list \<times> object_definition)"
where
  "any_attribute self attr_dict =
     and_then (contains ''type'' attr_dict) (\<lambda>has_type.
       if has_type then type_attribute self attr_dict
       else and_then (contains ''$ref'' attr_dict) (\<lambda>has_ref.
         if has_ref then ref_attribute self attr_dict
         else and_then (contains ''oneOf'' attr_dict) (\<lambda>has_oneof.
           if has_oneof then oneof_attribute self attr_dict
           else Inl (NotImplementedError ''unrecognized attribute keys''))))"
| "type_attribute self attr_dict =
     and_then (get_attr_kwds attr_dict) (\<lambda>kwds.
     and_then (getitem attr_dict ''type'') (\<lambda>tp.
       if tp = JStr ''array''
       then and_then (getitem attr_dict ''items'') (\<lambda>items.
            and_then (any_attribute self items) (\<lambda>(typename, self').
            Inr (instance_str ''List'' [typename] kwds, self')))
       else if tp = JStr ''boolean'' then Inr (instance_str ''Bool'' [] kwds, self)
       else if tp = JStr ''number'' then Inr (instance_str ''CFloat'' [] kwds, self)
       else if tp = JStr ''string'' then Inr (instance_str ''Unicode'' [] kwds, self)
       else if tp = JStr ''object'' then Inr (instance_str ''Any'' [] kwds, self)
       else Inl (NotImplementedError (py_str tp))))"
| "oneof_attribute self attr_dict =
     and_then (getitem attr_dict ''oneOf'') (\<lambda>alternatives.
     and_then (iter_json alternatives) (\<lambda>attrs.
     and_then (oneof_types self attrs) (\<lambda>(types, self').
     Inr (''T.Union(['' @ str_join '', '' (sort types) @ ''])'', self'))))"
| "oneof_types self [] = Inr ([], self)"
| "oneof_types self (attr # attrs) =
     and_then (any_attribute self attr) (\<lambda>(t, self').
     and_then (oneof_types self' attrs) (\<lambda>(ts, self'').
     Inr (t # ts, self'')))"
  by pat_completeness auto
termination
proof (relation "measure (\<lambda>x. case x of
          Inl (Inl (self, a)) \<Rightarrow> 2 * attr_size a + 1
        | Inl (Inr (self, a)) \<Rightarrow> 2 * attr_size a
        | Inr (Inl (self, a)) \<Rightarrow> 2 * attr_size a
        | Inr (Inr (self, xs)) \<Rightarrow> 2 * attrs_size xs)", goal_cases)
  case 1
  show ?case by simp
next
  case (2 self attr_dict has_type)
  show ?case by simp
next
  case (3 self attr_dict has_type has_ref has_oneof)
  show ?case by simp
next
  case (4 self attr_dict kwds tp items)
  from \<open>getitem attr_dict ''items'' = Inr items\<close> have "jsize items < attr_size attr_dict"
    by (rule getitem_attr_size)
  with attr_size_le_jsize [of items] show ?case by simp
next
  case (5 self attr_dict alternatives attrs)
  from \<open>getitem attr_dict ''oneOf'' = Inr alternatives\<close>
  have "jsize alternatives < attr_size attr_dict"
    by (rule getitem_attr_size)
  with iter_json_attrs_size [OF \<open>iter_json alternatives = Inr attrs\<close>] show ?case by simp
next
  case (6 self attr attrs)
  show ?case by (simp add: attrs_size_def)
next
  case (7 self attr attrs x t self')
  show ?case by (simp add: attrs_size_def)
qed

declare any_attribute.simps [simp del] type_attribute.simps [simp del]
  oneof_attribute.simps [simp del]

subsection \<open>\<^verbatim>\<open>ObjectDefinition.code\<close>\<close>

text \<open>\<^verbatim>\<open>self.prop_dict.items()\<close>: \<^verbatim>\<open>items\<close> is a method of \<^verbatim>\<open>dict\<close>.\<close>

definition dict_items :: "json \<Rightarrow> error + (string \<times> json) list" where
  "dict_items d = (case d of JObj kvs \<Rightarrow> Inr kvs | _ \<Rightarrow> Inl AttributeError)"

text \<open>The generator \<^verbatim>\<open>attr_template.format(key, self.any_attribute(val)) for key, val in ...\<close>,
  consumed by \<^verbatim>\<open>''.join\<close> from left to right.\<close>

fun code_attrs ::
  "object_definition \<Rightarrow> (string \<times> json) list \<Rightarrow> error + (string list \<times> object_definition)" where
  "code_attrs self [] = Inr ([], self)"
| "code_attrs self (kv # rest) =
     and_then (any_attribute self (snd kv)) (\<lambda>(t, self').
     and_then (code_attrs self' rest) (\<lambda>(ls, self'').
     Inr (attr_template (fst kv) t # ls, self'')))"

text \<open>\<^verbatim>\<open>sorted(self.prop_dict.items())\<close> orders the items by key: the keys of a \<^verbatim>\<open>dict\<close> are
  distinct, so two items never compare their values.\<close>

definition ObjectDefinition_code :: "object_definition \<Rightarrow> error + (string \<times> object_definition)" where
  "ObjectDefinition_code self =
     (let code = class_template (od_name self)
      in and_then (dict_items (od_prop_dict self)) (\<lambda>items.
         and_then (code_attrs self (sort_key fst items)) (\<lambda>(ls, self').
         Inr (code @ concat ls, self'))))"

section \<open>\<^verbatim>\<open>SchemaDefinition\<close>: \<^verbatim>\<open>init\<close>, \<^verbatim>\<open>class_definition\<close>, \<^verbatim>\<open>test_script\<close>\<close>

datatype schema_definition =
    ObjectDefinition object_definition
  | StringDefinition string_definition

definition SchemaDefinition_init :: "string \<Rightarrow> json \<Rightarrow> error + schema_definition" where
  "SchemaDefinition_init name schema =
     and_then (lookup_definition schema name) (\<lambda>d.
     and_then (getitem d ''type'') (\<lambda>typ.
       if typ = JStr ''object''
       then and_then (ObjectDefinition_init name schema) (\<lambda>obj. Inr (ObjectDefinition obj))
       else if typ = JStr ''string''
       then and_then (StringDefinition_init name schema) (\<lambda>obj. Inr (StringDefinition obj))
       else Inl (NotImplementedError
                   (''Definition type='' @ [CHR 0x27] @ py_str typ @ [CHR 0x27]))))"

text \<open>The fields \<^verbatim>\<open>name\<close> and \<^verbatim>\<open>imports\<close> and the method \<^verbatim>\<open>code\<close> of either class.\<close>

fun name_of :: "schema_definition \<Rightarrow> string" where
  "name_of (ObjectDefinition obj) = od_name obj"
| "name_of (StringDefinition obj) = sd_name obj"

fun imports_of :: "schema_definition \<Rightarrow> string list" where
  "imports_of (ObjectDefinition obj) = od_imports obj"
| "imports_of (StringDefinition obj) = sd_imports obj"

fun code :: "schema_definition \<Rightarrow> error + (string \<times> schema_definition)" where
  "code (ObjectDefinition obj) =
     and_then (ObjectDefinition_code obj) (\<lambda>(c, obj'). Inr (c, ObjectDefinition obj'))"
| "code (StringDefinition obj) =
     and_then (StringDefinition_code obj) (\<lambda>c. Inr (c, StringDefinition obj))"

text \<open>\<^verbatim>\<open>class_definition\<close>: the imports are read after \<^verbatim>\<open>code\<close> has run.\<close>

definition class_definition :: "schema_definition \<Rightarrow> error + (string \<times> schema_definition)" where
  "class_definition self =
     and_then (code self) (\<lambda>(code, self').
       (let imports = str_join ''\<newline>'' (imports_of self')
        in Inr (file_comment @ ''\<newline>\<newline>'' @ imports @ ''\<newline>\<newline>\<newline>'' @ code
                  @ ''\<newline>'', self')))"

definition test_script :: "schema_definition \<Rightarrow> string" where
  "test_script self = file_comment @ ''\<newline>\<newline>'' @ test_template (name_of self)"

section \<open>\<^verbatim>\<open>VegaLiteSchema\<close>\<close>

text \<open>\<^verbatim>\<open>sorted(self.schema['definitions'])\<close>: the keys of the mapping in ascending order.
  The model covers a document whose \<^verbatim>\<open>definitions\<close> entry is a JSON object; for any
  other value no definition can be built (Python raises \<^verbatim>\<open>TypeError\<close> or \<^verbatim>\<open>IndexError\<close>
  at the iteration or at the first subscription, and writes no module for an empty list
  or string), which the model reports as \<^verbatim>\<open>TypeError\<close>.\<close>

definition sorted_names :: "json \<Rightarrow> error + string list" where
  "sorted_names defs = (case defs of JObj kvs \<Rightarrow> Inr (sort (map fst kvs)) | _ \<Rightarrow> Inl TypeError)"

text \<open>\<^verbatim>\<open>definitions\<close>, read to its end: the pairs the generator yields.\<close>

fun init_all :: "json \<Rightarrow> string list \<Rightarrow> error + (string \<times> schema_definition) list" where
  "init_all schema [] = Inr []"
| "init_all schema (name # names) =
     and_then (SchemaDefinition_init name schema) (\<lambda>obj.
     and_then (init_all schema names) (\<lambda>rest. Inr ((name, obj) # rest)))"

definition definitions :: "json \<Rightarrow> error + (string \<times> schema_definition) list" where
  "definitions schema =
     and_then (getitem schema ''definitions'') (\<lambda>defs.
     and_then (sorted_names defs) (\<lambda>names. init_all schema names))"

text \<open>\<^verbatim>\<open>write_python_wrappers\<close>. Creating directories and opening files is left out: the
  result is what is written, in the order of writing: for every definition its module
  name, the text of the class file and the text of the test file, and the text of the
  package's \<^verbatim>\<open>__init__.py\<close> (that of the test package is a fixed line and is left
  out). The loop takes one definition at a time from the generator,
  so a definition is built only after the files of the one before it are written. When
  an exception ends the run, the files written before it stay on disk; the model
  returns the exception alone.\<close>

record generated_module =
  gm_module :: string
  gm_class_source :: string
  gm_test_source :: string

fun write_modules :: "json \<Rightarrow> string list \<Rightarrow> error + (generated_module list \<times> string)" where
  "write_modules schema [] = Inr ([], [])"
| "write_modules schema (name # names) =
     and_then (SchemaDefinition_init name schema) (\<lambda>obj.
       (let module = lower name
        in and_then (class_definition obj) (\<lambda>(class_text, obj').
           (let test_text = test_script obj';
                init_line = ''\<newline>from .'' @ module @ '' import '' @ name
            in and_then (write_modules schema names) (\<lambda>(ms, init_lines).
               Inr (\<lparr>gm_module = module, gm_class_source = class_text,
                        gm_test_source = test_text\<rparr> # ms,
                    init_line @ init_lines))))))"

definition write_python_wrappers :: "json \<Rightarrow> error + (generated_module list \<times> string)" where
  "write_python_wrappers schema =
     and_then (getitem schema ''definitions'') (\<lambda>defs.
     and_then (sorted_names defs) (\<lambda>names.
     and_then (write_modules schema names) (\<lambda>(ms, init_lines).
     Inr (ms, triple_quote @ ''Auto-generated Python wrappers for vegalite schema''
                @ triple_quote @ ''\<newline>'' @ init_lines))))"

section \<open>Example documents\<close>

text \<open>A document with an object definition, a string definition with and one without fixed
  values, and a definition of a kind the program does not know.\<close>

definition schema_kinds :: json where
  "schema_kinds = JObj [(''definitions'', JObj [
      (''Foo'', JObj [(''type'', JStr ''object''), (''properties'', JObj [])]),
      (''Color'', JObj [(''type'', JStr ''string''),
                        (''enum'', JArr [JStr ''red'', JStr ''green'', JStr ''blue''])]),
      (''Name'', JObj [(''type'', JStr ''string'')]),
      (''Odd'', JObj [(''type'', JStr ''array'')])])]"

text \<open>A document whose only definition is declared an object and has no properties entry.\<close>

definition schema_no_properties :: json where
  "schema_no_properties =
     JObj [(''definitions'', JObj [(''Foo'', JObj [(''type'', JStr ''object'')])])]"

text \<open>A document with references: \<open>A\<close> refers to the object \<open>B\<close> twice (once directly, once
  as the items of an array) and to the string definition \<open>Color\<close>; \<open>Odd\<close> is of a kind the
  program does not know.\<close>

definition props_A :: "(string \<times> json) list" where
  "props_A =
     [(''u'', JObj [(''oneOf'', JArr [JObj [(''type'', JStr ''number'')],
                                      JObj [(''type'', JStr ''boolean'')]]),
                    (''description'', JStr ''A union.'')]),
      (''n'', JObj [(''type'', JStr ''number''), (''minimum'', JInt 0),
                    (''description'', JStr ''How many (e.g. 3). More.'')]),
      (''c'', JObj [(''type'', JStr ''array''),
                    (''items'', JObj [(''$ref'', JStr ''#/definitions/B'')])]),
      (''b'', JObj [(''$ref'', JStr ''#/definitions/B'')]),
      (''k'', JObj [(''$ref'', JStr ''#/definitions/Color'')])]"

definition def_A :: json where
  "def_A = JObj [(''type'', JStr ''object''), (''properties'', JObj props_A)]"

definition schema_refs :: json where
  "schema_refs = JObj [(''definitions'', JObj [
      (''Color'', JObj [(''type'', JStr ''string''),
                        (''enum'', JArr [JStr ''red'', JStr ''green'', JStr ''blue''])]),
      (''B'', JObj [(''type'', JStr ''object''), (''properties'', JObj [])]),
      (''A'', def_A),
      (''Odd'', JObj [(''type'', JStr ''array'')])])]"

text \<open>The object \<^verbatim>\<open>ObjectDefinition('A', schema_refs)\<close>.\<close>

definition obj_A :: object_definition where
  "obj_A = \<lparr>od_name = ''A'', od_schema = schema_refs, od_definition = def_A,
            od_prop_dict = JObj props_A,
            od_imports = [''import traitlets as T'', ''from ..baseobject import BaseObject'']\<rparr>"

text \<open>The two scenarios of the specification in one document: an object \<open>Foo\<close> with a
  numeric property bounded below, and the enumeration \<open>Color\<close>.\<close>

definition defs_small :: "(string \<times> json) list" where
  "defs_small =
     [(''Foo'', JObj [(''type'', JStr ''object''),
                      (''properties'', JObj [(''bar'', JObj [(''type'', JStr ''number''),
                                                             (''minimum'', JInt 0)])])]),
      (''Color'', JObj [(''type'', JStr ''string''),
                        (''enum'', JArr [JStr ''red'', JStr ''green'', JStr ''blue''])])]"

definition schema_small :: json where
  "schema_small = JObj [(''definitions'', JObj defs_small)]"

section \<open>Classifying a definition (C8)\<close>

text \<open>
  C8, as stated, fails on the code: a definition whose type is \<^verbatim>\<open>"object"\<close> does not always
  yield an Object definition. The constructor of \<^verbatim>\<open>ObjectDefinition\<close> reads
  \<^verbatim>\<open>definition['properties']\<close>, so \<^verbatim>\<open>init\<close> raises \<^verbatim>\<open>KeyError\<close> for an object definition
  without that entry.
\<close>

theorem init_object_without_properties:
  "SchemaDefinition_init ''Foo'' schema_no_properties = Inl (KeyError ''properties'')"
  by code_simp

text \<open>
  C8, amended. For a definition whose \<^verbatim>\<open>type\<close> entry is \<open>typ\<close>: when \<open>typ\<close> is neither
  \<^verbatim>\<open>"object"\<close> nor \<^verbatim>\<open>"string"\<close>, \<^verbatim>\<open>init\<close> raises \<^verbatim>\<open>NotImplementedError\<close> whose message holds
  the text of \<open>typ\<close>, and no definition object is returned; \<^verbatim>\<open>"string"\<close> yields a String
  definition; \<^verbatim>\<open>"object"\<close> yields an Object definition when the definition has a
  \<^verbatim>\<open>properties\<close> entry, and the exception of the missing entry otherwise.
\<close>

theorem SchemaDefinition_init_kinds:
  assumes "lookup_definition schema name = Inr d" and "getitem d ''type'' = Inr typ"
  shows "(typ \<noteq> JStr ''object'' \<and> typ \<noteq> JStr ''string'' \<longrightarrow>
            SchemaDefinition_init name schema
              = Inl (NotImplementedError
                       (''Definition type='' @ [CHR 0x27] @ py_str typ @ [CHR 0x27])))
       \<and> (typ = JStr ''string'' \<longrightarrow>
            SchemaDefinition_init name schema
              = Inr (StringDefinition \<lparr>sd_name = name, sd_schema = schema, sd_definition = d,
                       sd_imports = [''import traitlets as T'']\<rparr>))
       \<and> (typ = JStr ''object'' \<longrightarrow>
            (\<forall>props. getitem d ''properties'' = Inr props \<longrightarrow>
               SchemaDefinition_init name schema
                 = Inr (ObjectDefinition \<lparr>od_name = name, od_schema = schema, od_definition = d,
                          od_prop_dict = props,
                          od_imports = [''import traitlets as T'',
                                        ''from ..baseobject import BaseObject'']\<rparr>))
          \<and> (\<forall>e. getitem d ''properties'' = Inl e \<longrightarrow>
                 SchemaDefinition_init name schema = Inl e))"
  using assms
  by (simp add: SchemaDefinition_init_def ObjectDefinition_init_def StringDefinition_init_def)

theorem SchemaDefinition_init_kinds_witness:
  "SchemaDefinition_init ''Odd'' schema_kinds
     = Inl (NotImplementedError (''Definition type='' @ [CHR 0x27] @ ''array'' @ [CHR 0x27]))
   \<and> SchemaDefinition_init ''Name'' schema_kinds
     = Inr (StringDefinition \<lparr>sd_name = ''Name'', sd_schema = schema_kinds,
              sd_definition = JObj [(''type'', JStr ''string'')],
              sd_imports = [''import traitlets as T'']\<rparr>)
   \<and> SchemaDefinition_init ''Foo'' schema_kinds
     = Inr (ObjectDefinition \<lparr>od_name = ''Foo'', od_schema = schema_kinds,
              od_definition = JObj [(''type'', JStr ''object''), (''properties'', JObj [])],
              od_prop_dict = JObj [],
              od_imports = [''import traitlets as T'',
                            ''from ..baseobject import BaseObject'']\<rparr>)"
proof -
  have odd: "lookup_definition schema_kinds ''Odd'' = Inr (JObj [(''type'', JStr ''array'')])"
    and name: "lookup_definition schema_kinds ''Name'' = Inr (JObj [(''type'', JStr ''string'')])"
    and foo: "lookup_definition schema_kinds ''Foo''
                = Inr (JObj [(''type'', JStr ''object''), (''properties'', JObj [])])"
    by (simp_all add: schema_kinds_def lookup_definition_def getitem_def)
  have t1: "getitem (JObj [(''type'', JStr ''array'')]) ''type'' = Inr (JStr ''array'')"
    and t2: "getitem (JObj [(''type'', JStr ''string'')]) ''type'' = Inr (JStr ''string'')"
    and t3: "getitem (JObj [(''type'', JStr ''object''), (''properties'', JObj [])]) ''type''
               = Inr (JStr ''object'')"
    and t4: "getitem (JObj [(''type'', JStr ''object''), (''properties'', JObj [])]) ''properties''
               = Inr (JObj [])"
    by (simp_all add: getitem_def)
  show ?thesis
    using SchemaDefinition_init_kinds [OF odd t1] SchemaDefinition_init_kinds [OF name t2]
      SchemaDefinition_init_kinds [OF foo t3] t4
    by (simp add: py_str_def)
qed

section \<open>The code of a string definition (C5)\<close>

text \<open>
  C5. A String definition with an \<^verbatim>\<open>enum\<close> entry renders the enumeration class with the
  text of that entry inserted as it is: for a list, its elements in their declared order,
  each written by \<^verbatim>\<open>repr\<close>, separated by a comma and a space, in brackets. Nothing sorts
  the list. A String definition without the entry renders the plain \<^verbatim>\<open>T.Unicode\<close> wrapper.
\<close>

theorem StringDefinition_code_enum_order:
  assumes "sd_definition self = JObj kvs"
  shows "(\<forall>values. map_of kvs ''enum'' = Some (JArr values) \<longrightarrow>
            StringDefinition_code self
              = Inr (enum_template (sd_name self)
                       (''['' @ str_join '', '' (map py_repr values) @ '']'')))
       \<and> (map_of kvs ''enum'' = None \<longrightarrow>
            StringDefinition_code self = Inr (string_template (sd_name self)))"
  using assms
  by (simp add: StringDefinition_code_def contains_def getitem_def py_str_def)

theorem StringDefinition_code_enum_order_witness:
  "StringDefinition_code \<lparr>sd_name = ''Color'', sd_schema = schema_kinds,
       sd_definition = JObj [(''type'', JStr ''string''),
                             (''enum'', JArr [JStr ''red'', JStr ''green'', JStr ''blue''])],
       sd_imports = [''import traitlets as T'']\<rparr>
     = Inr (enum_template ''Color''
              (''['' @ str_join '', '' [repr_str ''red'', repr_str ''green'', repr_str ''blue''] @ '']''))
   \<and> StringDefinition_code \<lparr>sd_name = ''Name'', sd_schema = schema_kinds,
       sd_definition = JObj [(''type'', JStr ''string'')],
       sd_imports = [''import traitlets as T'']\<rparr>
     = Inr (string_template ''Name'')"
  using StringDefinition_code_enum_order
          [of "\<lparr>sd_name = ''Color'', sd_schema = schema_kinds,
                 sd_definition = JObj [(''type'', JStr ''string''),
                             (''enum'', JArr [JStr ''red'', JStr ''green'', JStr ''blue''])],
                 sd_imports = [''import traitlets as T'']\<rparr>"
              "[(''type'', JStr ''string''),
                (''enum'', JArr [JStr ''red'', JStr ''green'', JStr ''blue''])]"]
        StringDefinition_code_enum_order
          [of "\<lparr>sd_name = ''Name'', sd_schema = schema_kinds,
                 sd_definition = JObj [(''type'', JStr ''string'')],
                 sd_imports = [''import traitlets as T'']\<rparr>"
              "[(''type'', JStr ''string'')]"]
  by simp

section \<open>Resolving a reference (C10)\<close>

lemma ref_name_eq_Inr:
  "ref_name r = Inr name \<longleftrightarrow> (\<exists>s a b. r = JStr s \<and> py_split ''/'' s = [a, b, name])"
  by (auto simp: ref_name_def split: json.splits list.splits)

lemma ref_name_wrong_length: "length (py_split ''/'' s) \<noteq> 3 \<Longrightarrow> ref_name (JStr s) = Inl ValueError"
  by (auto simp: ref_name_def split: list.splits)

text \<open>
  C10. \<^verbatim>\<open>ref_attribute\<close> returns a result exactly when the keywords of the descriptor can be
  derived, its \<^verbatim>\<open>$ref\<close> entry is a string that \<^verbatim>\<open>split('/')\<close> cuts into exactly three pieces,
  the third piece names an entry of the schema's definitions, and that entry's type is
  \<^verbatim>\<open>"object"\<close> or \<^verbatim>\<open>"string"\<close>. In every other case it raises: \<^verbatim>\<open>ValueError\<close> for another
  number of pieces, the exception of the lookup (\<^verbatim>\<open>KeyError\<close>) for a missing target, and
  \<^verbatim>\<open>NotImplementedError\<close> for a target of another kind.
\<close>

theorem ref_attribute_succeeds_iff:
  "((\<exists>r. ref_attribute self attr_dict = Inr r) \<longleftrightarrow>
      (\<exists>kwds s a b name d reftype.
         get_attr_kwds attr_dict = Inr kwds
       \<and> getitem attr_dict ''$ref'' = Inr (JStr s)
       \<and> py_split ''/'' s = [a, b, name]
       \<and> lookup_definition (od_schema self) name = Inr d
       \<and> getitem d ''type'' = Inr reftype
       \<and> (reftype = JStr ''object'' \<or> reftype = JStr ''string'')))
   \<and> (\<forall>kwds s. get_attr_kwds attr_dict = Inr kwds \<longrightarrow>
         getitem attr_dict ''$ref'' = Inr (JStr s) \<longrightarrow>
         length (py_split ''/'' s) \<noteq> 3 \<longrightarrow>
         ref_attribute self attr_dict = Inl ValueError)
   \<and> (\<forall>kwds s a b name e. get_attr_kwds attr_dict = Inr kwds \<longrightarrow>
         getitem attr_dict ''$ref'' = Inr (JStr s) \<longrightarrow>
         py_split ''/'' s = [a, b, name] \<longrightarrow>
         lookup_definition (od_schema self) name = Inl e \<longrightarrow>
         ref_attribute self attr_dict = Inl e)
   \<and> (\<forall>kwds s a b name d reftype. get_attr_kwds attr_dict = Inr kwds \<longrightarrow>
         getitem attr_dict ''$ref'' = Inr (JStr s) \<longrightarrow>
         py_split ''/'' s = [a, b, name] \<longrightarrow>
         lookup_definition (od_schema self) name = Inr d \<longrightarrow>
         getitem d ''type'' = Inr reftype \<longrightarrow>
         reftype \<noteq> JStr ''object'' \<longrightarrow> reftype \<noteq> JStr ''string'' \<longrightarrow>
         ref_attribute self attr_dict
           = Inl (NotImplementedError (''type = '' @ [CHR 0x27] @ py_str reftype @ [CHR 0x27])))"
  (is "(?lhs \<longleftrightarrow> ?rhs) \<and> ?wrong_length \<and> ?missing \<and> ?other_kind")
proof (intro conjI)
  show "?lhs \<longleftrightarrow> ?rhs"
  proof
    assume ?lhs
    then obtain r where "ref_attribute self attr_dict = Inr r" ..
    then obtain kwds v name d reftype where
      "get_attr_kwds attr_dict = Inr kwds" "getitem attr_dict ''$ref'' = Inr v"
      "ref_name v = Inr name" "lookup_definition (od_schema self) name = Inr d"
      "getitem d ''type'' = Inr reftype" "reftype = JStr ''object'' \<or> reftype = JStr ''string''"
      by (auto simp: ref_attribute_def and_then_eq_Inr Let_def split: if_splits)
    then show ?rhs
      by (auto simp: ref_name_eq_Inr)
  next
    assume ?rhs
    then obtain kwds s a b name d reftype where h:
      "get_attr_kwds attr_dict = Inr kwds" "getitem attr_dict ''$ref'' = Inr (JStr s)"
      "py_split ''/'' s = [a, b, name]" "lookup_definition (od_schema self) name = Inr d"
      "getitem d ''type'' = Inr reftype" "reftype = JStr ''object'' \<or> reftype = JStr ''string''"
      by blast
    from h(3) have "ref_name (JStr s) = Inr name"
      by (simp add: ref_name_def)
    with h show ?lhs
      by (auto simp: ref_attribute_def Let_def)
  qed
next
  show ?wrong_length
    by (simp add: ref_attribute_def ref_name_wrong_length)
next
  show ?missing
    by (simp add: ref_attribute_def ref_name_def Let_def)
next
  show ?other_kind
    by (simp add: ref_attribute_def ref_name_def Let_def)
qed

theorem ref_attribute_succeeds_iff_witness:
  "(\<exists>r. ref_attribute obj_A (JObj [(''$ref'', JStr ''#/definitions/B'')]) = Inr r)
   \<and> ref_attribute obj_A (JObj [(''$ref'', JStr ''B'')]) = Inl ValueError
   \<and> ref_attribute obj_A (JObj [(''$ref'', JStr ''#/definitions/Missing'')])
       = Inl (KeyError ''Missing'')
   \<and> ref_attribute obj_A (JObj [(''$ref'', JStr ''#/definitions/Odd'')])
       = Inl (NotImplementedError (''type = '' @ [CHR 0x27] @ ''array'' @ [CHR 0x27]))"
proof -
  note main = ref_attribute_succeeds_iff
  have kw: "\<And>r. get_attr_kwds (JObj [(''$ref'', r)])
                 = Inr [(''allow_none'', JStr ''True''), (''default_value'', JStr ''None'')]"
    and gi: "\<And>r. getitem (JObj [(''$ref'', r)]) ''$ref'' = Inr r"
    by (simp_all add: get_attr_kwds_def contains_def getitem_def)
  have sp: "py_split ''/'' ''#/definitions/B'' = [''#'', ''definitions'', ''B'']"
      "py_split ''/'' ''#/definitions/Missing'' = [''#'', ''definitions'', ''Missing'']"
      "py_split ''/'' ''#/definitions/Odd'' = [''#'', ''definitions'', ''Odd'']"
      "length (py_split ''/'' ''B'') \<noteq> 3"
    by (simp_all add: py_split.simps)
  have lk: "lookup_definition (od_schema obj_A) ''B''
              = Inr (JObj [(''type'', JStr ''object''), (''properties'', JObj [])])"
      "lookup_definition (od_schema obj_A) ''Missing'' = Inl (KeyError ''Missing'')"
      "lookup_definition (od_schema obj_A) ''Odd'' = Inr (JObj [(''type'', JStr ''array'')])"
    by (simp_all add: obj_A_def schema_refs_def lookup_definition_def getitem_def)
  have ty: "getitem (JObj [(''type'', JStr ''object''), (''properties'', JObj [])]) ''type''
              = Inr (JStr ''object'')"
      "getitem (JObj [(''type'', JStr ''array'')]) ''type'' = Inr (JStr ''array'')"
    by (simp_all add: getitem_def)
  have "\<exists>r. ref_attribute obj_A (JObj [(''$ref'', JStr ''#/definitions/B'')]) = Inr r"
    unfolding main [THEN conjunct1]
    using kw gi sp(1) lk(1) ty(1) by blast
  moreover have "ref_attribute obj_A (JObj [(''$ref'', JStr ''B'')]) = Inl ValueError"
    by (rule main [THEN conjunct2, THEN conjunct1, rule_format, OF kw gi sp(4)])
  moreover have "ref_attribute obj_A (JObj [(''$ref'', JStr ''#/definitions/Missing'')])
                   = Inl (KeyError ''Missing'')"
    by (rule main [THEN conjunct2, THEN conjunct2, THEN conjunct1, rule_format,
                  OF kw gi sp(2) lk(2)])
  moreover have "ref_attribute obj_A (JObj [(''$ref'', JStr ''#/definitions/Odd'')])
                   = Inl (NotImplementedError (''type = '' @ [CHR 0x27] @ ''array'' @ [CHR 0x27]))"
    using main [THEN conjunct2, THEN conjunct2, THEN conjunct2, rule_format,
               OF kw gi sp(3) lk(3) ty(2)]
    by (simp add: py_str_JStr)
  ultimately show ?thesis by blast
qed

section \<open>The dispatch of \<^verbatim>\<open>any_attribute\<close> (C9)\<close>

lemma contains_JObj: "contains k (JObj kvs) = Inr (map_of kvs k \<noteq> None)"
  by (simp add: contains_def)

lemma getitem_JObj:
  "getitem (JObj kvs) k = (case map_of kvs k of None \<Rightarrow> Inl (KeyError k) | Some v \<Rightarrow> Inr v)"
  by (simp add: getitem_def)

text \<open>A typed or a reference descriptor is read through a few keys only.\<close>

lemma get_attr_kwds_cong:
  assumes "map_of kvs' ''description'' = map_of kvs ''description''"
    and "map_of kvs' ''minimum'' = map_of kvs ''minimum''"
    and "map_of kvs' ''maximum'' = map_of kvs ''maximum''"
  shows "get_attr_kwds (JObj kvs') = get_attr_kwds (JObj kvs)"
  using assms by (simp add: get_attr_kwds_def contains_JObj getitem_JObj cong: if_cong)

lemma type_attribute_cong:
  assumes "get_attr_kwds (JObj kvs') = get_attr_kwds (JObj kvs)"
    and "map_of kvs' ''type'' = map_of kvs ''type''"
    and "map_of kvs' ''items'' = map_of kvs ''items''"
  shows "type_attribute self (JObj kvs') = type_attribute self (JObj kvs)"
  using assms
  by (simp add: type_attribute.simps [of self "JObj kvs'"] type_attribute.simps [of self "JObj kvs"]
        getitem_JObj cong: if_cong)

lemma ref_attribute_cong:
  assumes "get_attr_kwds (JObj kvs') = get_attr_kwds (JObj kvs)"
    and "map_of kvs' ''$ref'' = map_of kvs ''$ref''"
  shows "ref_attribute self (JObj kvs') = ref_attribute self (JObj kvs)"
  using assms by (simp add: ref_attribute_def getitem_JObj cong: if_cong)

text \<open>
  C9. For a descriptor that is a mapping, \<^verbatim>\<open>any_attribute\<close> takes the first of \<^verbatim>\<open>type\<close>,
  \<^verbatim>\<open>$ref\<close>, \<^verbatim>\<open>oneOf\<close> that is a key and raises its own \<^verbatim>\<open>NotImplementedError\<close> only when none
  is. The keys of lower priority are ignored silently: deleting them from the descriptor
  changes nothing (\<^verbatim>\<open>del d[k]\<close> is \<open>AList.delete\<close>). With one of the keys present the result
  is that of the handler chosen, whatever it is: a handler can end in an exception of its
  own, also in the one a nested descriptor without any of the keys raises.
\<close>

theorem any_attribute_priority:
  "any_attribute self (JObj kvs) =
     (if map_of kvs ''type'' \<noteq> None then type_attribute self (JObj kvs)
      else if map_of kvs ''$ref'' \<noteq> None then ref_attribute self (JObj kvs)
      else if map_of kvs ''oneOf'' \<noteq> None then oneof_attribute self (JObj kvs)
      else Inl (NotImplementedError ''unrecognized attribute keys''))
   \<and> (map_of kvs ''type'' \<noteq> None \<longrightarrow>
        any_attribute self (JObj kvs)
          = any_attribute self (JObj (AList.delete ''$ref'' (AList.delete ''oneOf'' kvs))))
   \<and> (map_of kvs ''type'' = None \<and> map_of kvs ''$ref'' \<noteq> None \<longrightarrow>
        any_attribute self (JObj kvs) = any_attribute self (JObj (AList.delete ''oneOf'' kvs)))"
proof (intro conjI impI)
  show "any_attribute self (JObj kvs) =
     (if map_of kvs ''type'' \<noteq> None then type_attribute self (JObj kvs)
      else if map_of kvs ''$ref'' \<noteq> None then ref_attribute self (JObj kvs)
      else if map_of kvs ''oneOf'' \<noteq> None then oneof_attribute self (JObj kvs)
      else Inl (NotImplementedError ''unrecognized attribute keys''))"
    by (simp add: any_attribute.simps [of self "JObj kvs"] contains_JObj)
next
  let ?kvs' = "AList.delete ''$ref'' (AList.delete ''oneOf'' kvs)"
  assume t: "map_of kvs ''type'' \<noteq> None"
  have "get_attr_kwds (JObj ?kvs') = get_attr_kwds (JObj kvs)"
    by (rule get_attr_kwds_cong) (simp_all add: delete_conv')
  then have "type_attribute self (JObj ?kvs') = type_attribute self (JObj kvs)"
    by (rule type_attribute_cong) (simp_all add: delete_conv')
  with t show "any_attribute self (JObj kvs) = any_attribute self (JObj ?kvs')"
    by (simp add: any_attribute.simps [of self "JObj kvs"] any_attribute.simps [of self "JObj ?kvs'"]
          contains_JObj delete_conv')
next
  let ?kvs' = "AList.delete ''oneOf'' kvs"
  assume t: "map_of kvs ''type'' = None \<and> map_of kvs ''$ref'' \<noteq> None"
  have "get_attr_kwds (JObj ?kvs') = get_attr_kwds (JObj kvs)"
    by (rule get_attr_kwds_cong) (simp_all add: delete_conv')
  then have "ref_attribute self (JObj ?kvs') = ref_attribute self (JObj kvs)"
    by (rule ref_attribute_cong) (simp_all add: delete_conv')
  with t show "any_attribute self (JObj kvs) = any_attribute self (JObj ?kvs')"
    by (simp add: any_attribute.simps [of self "JObj kvs"] any_attribute.simps [of self "JObj ?kvs'"]
          contains_JObj delete_conv')
qed

text \<open>A descriptor with all three keys resolves as its \<^verbatim>\<open>type\<close> says, one with \<^verbatim>\<open>$ref\<close> and
  \<^verbatim>\<open>oneOf\<close> as a reference.\<close>

theorem any_attribute_priority_witness:
  "any_attribute obj_A (JObj [(''oneOf'', JArr []), (''$ref'', JStr ''#/definitions/B''),
                              (''type'', JStr ''boolean'')])
     = any_attribute obj_A (JObj [(''type'', JStr ''boolean'')])
   \<and> any_attribute obj_A (JObj [(''oneOf'', JArr []), (''$ref'', JStr ''#/definitions/B'')])
     = any_attribute obj_A (JObj [(''$ref'', JStr ''#/definitions/B'')])
   \<and> any_attribute obj_A (JObj [(''description'', JStr ''Nothing else.'')])
     = Inl (NotImplementedError ''unrecognized attribute keys'')"
proof -
  let ?all = "[(''oneOf'', JArr []), (''$ref'', JStr ''#/definitions/B''),
               (''type'', JStr ''boolean'')]"
  let ?two = "[(''oneOf'', JArr []), (''$ref'', JStr ''#/definitions/B'')]"
  let ?none = "[(''description'', JStr ''Nothing else.'')]"
  have d1: "AList.delete ''$ref'' (AList.delete ''oneOf'' ?all) = [(''type'', JStr ''boolean'')]"
    and d2: "AList.delete ''oneOf'' ?two = [(''$ref'', JStr ''#/definitions/B'')]"
    by (simp_all add: AList.delete_eq)
  have "map_of ?all ''type'' \<noteq> None" by simp
  with any_attribute_priority [of obj_A ?all]
  have "any_attribute obj_A (JObj ?all)
          = any_attribute obj_A (JObj (AList.delete ''$ref'' (AList.delete ''oneOf'' ?all)))"
    by blast
  then have 1: "any_attribute obj_A (JObj ?all) = any_attribute obj_A (JObj [(''type'', JStr ''boolean'')])"
    by (simp only: d1)
  have "map_of ?two ''type'' = None \<and> map_of ?two ''$ref'' \<noteq> None" by simp
  with any_attribute_priority [of obj_A ?two]
  have "any_attribute obj_A (JObj ?two) = any_attribute obj_A (JObj (AList.delete ''oneOf'' ?two))"
    by blast
  then have 2: "any_attribute obj_A (JObj ?two)
                  = any_attribute obj_A (JObj [(''$ref'', JStr ''#/definitions/B'')])"
    by (simp only: d2)
  have "map_of ?none ''type'' = None" "map_of ?none ''$ref'' = None" "map_of ?none ''oneOf'' = None"
    by simp_all
  with any_attribute_priority [of obj_A ?none]
  have 3: "any_attribute obj_A (JObj ?none) = Inl (NotImplementedError ''unrecognized attribute keys'')"
    by simp
  from 1 2 3 show ?thesis by blast
qed

section \<open>The help text of an attribute (C6)\<close>

lemma py_split_nonempty: "py_split sep s \<noteq> []"
  by (induction sep s rule: py_split.induct) (subst py_split.simps, simp split: list.splits)

text \<open>The position of the first occurrence of \<open>sep\<close> in \<open>s\<close>, counted from 0, and the length
  of \<open>s\<close> when there is none: the words of the specification, to compare the code with.\<close>

fun first_index :: "string \<Rightarrow> string \<Rightarrow> nat" where
  "first_index sep [] = 0"
| "first_index sep (c # cs) = (if prefix sep (c # cs) then 0 else Suc (first_index sep cs))"

lemma first_index_le: "first_index sep s \<le> length s"
  by (induction s) simp_all

lemma first_index_found:
  "first_index sep s < length s \<Longrightarrow> prefix sep (drop (first_index sep s) s)"
  by (induction s) (simp_all split: if_splits)

lemma first_index_first: "i < first_index sep s \<Longrightarrow> \<not> prefix sep (drop i s)"
proof (induction s arbitrary: i)
  case Nil
  then show ?case by simp
next
  case (Cons c cs)
  then show ?case by (cases i) (auto split: if_splits)
qed

text \<open>\<^verbatim>\<open>s.split(sep)[0]\<close> is \<open>s\<close> cut at the first occurrence of \<open>sep\<close>.\<close>

lemma hd_py_split:
  assumes "sep \<noteq> []"
  shows "hd (py_split sep s) = take (first_index sep s) s"
proof (induction s)
  case Nil
  from assms show ?case by (simp add: py_split.simps)
next
  case (Cons c cs)
  show ?case
  proof (cases "prefix sep (c # cs)")
    case True
    with assms show ?thesis by (simp add: py_split.simps [of sep "c # cs"])
  next
    case False
    obtain p ps where p: "py_split sep cs = p # ps"
      using py_split_nonempty [of sep cs] by (cases "py_split sep cs") auto
    with Cons.IH have "p = take (first_index sep cs) cs" by simp
    with False assms p show ?thesis by (simp add: py_split.simps [of sep "c # cs"])
  qed
qed

lemma first_index_char_take: "first_index [c] (take n s) = min (first_index [c] s) n"
proof (induction s arbitrary: n)
  case Nil
  then show ?case by simp
next
  case (Cons x xs)
  then show ?case by (cases n) simp_all
qed

lemma summarize_eq:
  "hd (py_split ''.'' (hd (py_split ''(e.g.'' s)))
     = take (min (first_index ''.'' s) (first_index ''(e.g.'' s)) s"
  by (simp add: hd_py_split first_index_char_take min.commute min.left_commute)

text \<open>
  C6. The help text derived from a description \<open>d\<close> is \<open>d\<close> cut at the first \<^verbatim>\<open>.\<close> or at
  the first \<^verbatim>\<open>(e.g.\<close>, whichever comes first, written as a Python doc string: trailing
  whitespace removed, a full stop added, in triple quotes. For a descriptor with that
  description, it is the value of the keyword \<^verbatim>\<open>help\<close> that \<^verbatim>\<open>get_attr_kwds\<close> returns.
\<close>

theorem format_help_string_truncates:
  "format_help_string (JStr d) True
     = Inr (triple_quote
            @ rstrip (take (min (first_index ''.'' d) (first_index ''(e.g.'' d)) d)
            @ ''.'' @ triple_quote)
   \<and> (\<forall>kwds. getitem attr_dict ''description'' = Inr (JStr d) \<longrightarrow>
         get_attr_kwds attr_dict = Inr kwds \<longrightarrow>
         map_of kwds ''help''
           = Some (JStr (triple_quote
                         @ rstrip (take (min (first_index ''.'' d) (first_index ''(e.g.'' d)) d)
                         @ ''.'' @ triple_quote)))"
proof (intro conjI allI impI)
  show f: "format_help_string (JStr d) True
     = Inr (triple_quote
            @ rstrip (take (min (first_index ''.'' d) (first_index ''(e.g.'' d)) d)
            @ ''.'' @ triple_quote)"
    by (simp add: format_help_string_def summarize_eq)
  fix kwds
  assume d: "getitem attr_dict ''description'' = Inr (JStr d)"
    and k: "get_attr_kwds attr_dict = Inr kwds"
  from d obtain kvs where a: "attr_dict = JObj kvs"
    and m: "map_of kvs ''description'' = Some (JStr d)"
    by (cases attr_dict) (auto simp: getitem_def split: option.splits)
  from k show "map_of kwds ''help''
           = Some (JStr (triple_quote
                         @ rstrip (take (min (first_index ''.'' d) (first_index ''(e.g.'' d)) d)
                         @ ''.'' @ triple_quote))"
    unfolding a get_attr_kwds_def Let_def
    by (auto simp: contains_JObj getitem_JObj m f and_then_eq_Inr update_conv'
             split: if_splits option.splits)
qed

text \<open>The description \<^verbatim>\<open>How many (e.g. 3). More.\<close> has its first \<^verbatim>\<open>.\<close> at 11 and its first
  \<^verbatim>\<open>(e.g.\<close> at 9: the help text is \<^verbatim>\<open>"""How many."""\<close>.\<close>

theorem format_help_string_truncates_witness:
  "format_help_string (JStr ''How many (e.g. 3). More.'') True
     = Inr (triple_quote @ ''How many.'' @ triple_quote)
   \<and> (\<exists>kwds. get_attr_kwds (JObj [(''type'', JStr ''number''),
                                   (''description'', JStr ''How many (e.g. 3). More.'')])
                = Inr kwds
            \<and> map_of kwds ''help'' = Some (JStr (triple_quote @ ''How many.'' @ triple_quote)))"
proof -
  let ?d = "''How many (e.g. 3). More.''"
  let ?a = "JObj [(''type'', JStr ''number''), (''description'', JStr ?d)]"
  have cut: "rstrip (take (min (first_index ''.'' ?d) (first_index ''(e.g.'' ?d)) ?d) = ''How many''"
    by (simp add: rstrip_def is_space_def)
  have g: "getitem ?a ''description'' = Inr (JStr ?d)"
    by (simp add: getitem_def)
  obtain kwds where k: "get_attr_kwds ?a = Inr kwds"
    by (simp add: get_attr_kwds_def contains_def getitem_def format_help_string_def)
  from format_help_string_truncates [of ?d ?a] g k
  have "format_help_string (JStr ?d) True = Inr (triple_quote @ ''How many'' @ ''.'' @ triple_quote)"
    and "map_of kwds ''help'' = Some (JStr (triple_quote @ ''How many'' @ ''.'' @ triple_quote))"
    unfolding cut by blast+
  with k show ?thesis by simp
qed

section \<open>What a resolution depends on, and what it changes\<close>

text \<open>Resolving a descriptor reads the schema only to look definitions up, never reads
  \<^verbatim>\<open>imports\<close>, and changes the object only by appending to \<^verbatim>\<open>imports\<close>. So two objects
  that look up the same definitions get the same text or the same exception, and the
  same lines appended.\<close>

definition add_imports :: "object_definition \<Rightarrow> string list \<Rightarrow> object_definition" where
  "add_imports self adds = self\<lparr>od_imports := od_imports self @ adds\<rparr>"

lemma add_imports_Nil [simp]: "add_imports self [] = self"
  by (simp add: add_imports_def)

lemma add_imports_add_imports [simp]:
  "add_imports (add_imports self xs) ys = add_imports self (xs @ ys)"
  by (simp add: add_imports_def)

lemma od_schema_add_imports [simp]: "od_schema (add_imports self xs) = od_schema self"
  by (simp add: add_imports_def)

lemma od_imports_add_imports [simp]: "od_imports (add_imports self xs) = od_imports self @ xs"
  by (simp add: add_imports_def)

definition same_outcome ::
  "object_definition \<Rightarrow> error + ('a \<times> object_definition) \<Rightarrow>
   object_definition \<Rightarrow> error + ('a \<times> object_definition) \<Rightarrow> bool" where
  "same_outcome self r self2 r2 =
     (case r of
        Inl e \<Rightarrow> r2 = Inl e
      | Inr (t, self') \<Rightarrow>
          (\<exists>adds. self' = add_imports self adds \<and> r2 = Inr (t, add_imports self2 adds)))"

lemma same_outcome_Inl [simp]: "same_outcome self (Inl e) self2 (Inl e)"
  by (simp add: same_outcome_def)

lemma same_outcome_Inr [simp]: "same_outcome self (Inr (t, self)) self2 (Inr (t, self2))"
  unfolding same_outcome_def by (simp, rule exI [of _ "[]"], simp)

lemma same_outcome_pure:
  assumes "\<And>v. m = Inr v \<Longrightarrow> same_outcome self (f v) self2 (f2 v)"
  shows "same_outcome self (and_then m f) self2 (and_then m f2)"
  using assms by (cases m) simp_all

lemma same_outcome_and_then:
  assumes m: "same_outcome self m self2 m2"
    and f: "\<And>t adds. m = Inr (t, add_imports self adds) \<Longrightarrow>
              same_outcome (add_imports self adds) (f (t, add_imports self adds))
                (add_imports self2 adds) (f2 (t, add_imports self2 adds))"
  shows "same_outcome self (and_then m f) self2 (and_then m2 f2)"
proof (cases m)
  case (Inl e)
  with m show ?thesis by (simp add: same_outcome_def)
next
  case (Inr r)
  obtain t self' where r: "r = (t, self')" by (cases r)
  with m Inr obtain adds where a: "self' = add_imports self adds"
    and m2: "m2 = Inr (t, add_imports self2 adds)"
    by (auto simp: same_outcome_def)
  from f [of t adds] Inr r a
  have "same_outcome (add_imports self adds) (f (t, add_imports self adds))
          (add_imports self2 adds) (f2 (t, add_imports self2 adds))" by simp
  then have "same_outcome self (f (t, add_imports self adds)) self2 (f2 (t, add_imports self2 adds))"
    by (auto simp: same_outcome_def split: sum.splits prod.splits)
  with Inr r a m2 show ?thesis by simp
qed

lemma same_outcome_ref_attribute:
  assumes "lookup_definition (od_schema self2) = lookup_definition (od_schema self)"
  shows "same_outcome self (ref_attribute self a) self2 (ref_attribute self2 a)"
  unfolding ref_attribute_def Let_def
proof (intro same_outcome_pure, goal_cases)
  case (1 kwds r name)
  have "same_outcome self (Inr (t, add_imports self [import_line name]))
          self2 (Inr (t, add_imports self2 [import_line name]))" for t :: string
    by (auto simp: same_outcome_def)
  then show ?case
    by (simp add: assms add_imports_def [symmetric] same_outcome_pure)
qed

lemma same_outcome_if:
  assumes "c \<Longrightarrow> same_outcome s x s2 x2" and "\<not> c \<Longrightarrow> same_outcome s y s2 y2"
  shows "same_outcome s (if c then x else y) s2 (if c then x2 else y2)"
  using assms by simp

lemma same_outcome_Inr_and_then:
  assumes "same_outcome self m self2 m2"
  shows "same_outcome self (and_then m (\<lambda>(t, self'). Inr (g t, self')))
           self2 (and_then m2 (\<lambda>(t, self'). Inr (g t, self')))"
  using assms by (intro same_outcome_and_then) simp_all

lemma same_outcome_resolve:
  "\<forall>self2. lookup_definition (od_schema self2) = lookup_definition (od_schema s1) \<longrightarrow>
      same_outcome s1 (any_attribute s1 a) self2 (any_attribute self2 a)"
  "\<forall>self2. lookup_definition (od_schema self2) = lookup_definition (od_schema s2) \<longrightarrow>
      same_outcome s2 (type_attribute s2 b) self2 (type_attribute self2 b)"
  "\<forall>self2. lookup_definition (od_schema self2) = lookup_definition (od_schema s3) \<longrightarrow>
      same_outcome s3 (oneof_attribute s3 c) self2 (oneof_attribute self2 c)"
  "\<forall>self2. lookup_definition (od_schema self2) = lookup_definition (od_schema s4) \<longrightarrow>
      same_outcome s4 (oneof_types s4 xs) self2 (oneof_types self2 xs)"
proof (induction s1 a and s2 b and s3 c and s4 xs
       rule: any_attribute_type_attribute_oneof_attribute_oneof_types.induct)
  case (1 self attr_dict)
  show ?case
  proof (intro allI impI)
    fix self2 :: object_definition
    assume eq: "lookup_definition (od_schema self2) = lookup_definition (od_schema self)"
    show "same_outcome self (any_attribute self attr_dict) self2 (any_attribute self2 attr_dict)"
      unfolding any_attribute.simps [of self attr_dict] any_attribute.simps [of self2 attr_dict]
    proof (intro same_outcome_pure same_outcome_if, goal_cases)
      case (1 v)
      with "1.IH"(1) eq show ?case by blast
    next
      case (2 v va)
      from eq show ?case by (rule same_outcome_ref_attribute)
    next
      case (3 v va vb)
      with "1.IH"(2) eq show ?case by blast
    next
      case (4 v va vb)
      show ?case by simp
    qed
  qed
next
  case (2 self attr_dict)
  show ?case
  proof (intro allI impI)
    fix self2 :: object_definition
    assume eq: "lookup_definition (od_schema self2) = lookup_definition (od_schema self)"
    show "same_outcome self (type_attribute self attr_dict) self2 (type_attribute self2 attr_dict)"
      unfolding type_attribute.simps [of self attr_dict] type_attribute.simps [of self2 attr_dict]
    proof (intro same_outcome_pure same_outcome_if same_outcome_Inr_and_then, goal_cases)
      case (1 kwds tp items)
      with "2.IH" eq show ?case by blast
    qed simp_all
  qed
next
  case (3 self attr_dict)
  show ?case
  proof (intro allI impI)
    fix self2 :: object_definition
    assume eq: "lookup_definition (od_schema self2) = lookup_definition (od_schema self)"
    show "same_outcome self (oneof_attribute self attr_dict) self2 (oneof_attribute self2 attr_dict)"
      unfolding oneof_attribute.simps [of self attr_dict] oneof_attribute.simps [of self2 attr_dict]
    proof (intro same_outcome_pure same_outcome_Inr_and_then, goal_cases)
      case (1 alternatives attrs)
      with "3.IH" eq show ?case by blast
    qed
  qed
next
  case (4 self)
  show ?case by simp
next
  case (5 self attr attrs)
  show ?case
  proof (intro allI impI)
    fix self2 :: object_definition
    assume eq: "lookup_definition (od_schema self2) = lookup_definition (od_schema self)"
    have first: "same_outcome self (any_attribute self attr) self2 (any_attribute self2 attr)"
      using "5.IH"(1) eq by blast
    show "same_outcome self (oneof_types self (attr # attrs)) self2 (oneof_types self2 (attr # attrs))"
      unfolding oneof_types.simps
    proof (rule same_outcome_and_then [OF first])
      fix t adds
      assume r: "any_attribute self attr = Inr (t, add_imports self adds)"
      have "same_outcome (add_imports self adds) (oneof_types (add_imports self adds) attrs)
              (add_imports self2 adds) (oneof_types (add_imports self2 adds) attrs)"
        using "5.IH"(2) [OF r refl] eq by simp
      then show "same_outcome (add_imports self adds)
          (case (t, add_imports self adds) of
           (t, self') \<Rightarrow> and_then (oneof_types self' attrs) (\<lambda>(ts, self''). Inr (t # ts, self'')))
          (add_imports self2 adds)
          (case (t, add_imports self2 adds) of
           (t, self') \<Rightarrow> and_then (oneof_types self' attrs) (\<lambda>(ts, self''). Inr (t # ts, self'')))"
        unfolding prod.case by (rule same_outcome_Inr_and_then)
    qed
  qed
qed

section \<open>The rendering of a union (C3)\<close>

text \<open>\<open>resolves_to self a t\<close>: resolving the descriptor \<open>a\<close> on the object \<open>self\<close> returns
  the text \<open>t\<close>.\<close>

definition resolves_to :: "object_definition \<Rightarrow> json \<Rightarrow> string \<Rightarrow> bool" where
  "resolves_to self a t = (\<exists>self'. any_attribute self a = Inr (t, self'))"

lemma resolves_to_functional: "resolves_to self a t \<Longrightarrow> resolves_to self a t' \<Longrightarrow> t = t'"
  by (auto simp: resolves_to_def)

lemma resolves_to_same_lookup:
  assumes "lookup_definition (od_schema self2) = lookup_definition (od_schema self)"
  shows "resolves_to self2 a = resolves_to self a"
proof -
  have "resolves_to s2 a t" if "resolves_to s1 a t"
    and "lookup_definition (od_schema s2) = lookup_definition (od_schema s1)" for s1 s2 t
    using same_outcome_resolve(1) [of s1 a] that
    by (fastforce simp: resolves_to_def same_outcome_def)
  with assms show ?thesis by (intro ext) (metis)
qed

lemma any_attribute_appends:
  assumes "any_attribute self a = Inr (t, self')"
  shows "\<exists>adds. self' = add_imports self adds"
  using same_outcome_resolve(1) [of self a] assms by (auto simp: same_outcome_def)

lemma oneof_types_texts:
  "oneof_types self xs = Inr (ts, self') \<Longrightarrow> list_all2 (resolves_to self) xs ts"
proof (induction xs arbitrary: self ts self')
  case Nil
  then show ?case by simp
next
  case (Cons x xs)
  from Cons.prems obtain t s1 ts' where x: "any_attribute self x = Inr (t, s1)"
    and rest: "oneof_types s1 xs = Inr (ts', self')" and ts: "ts = t # ts'"
    by (auto simp: and_then_eq_Inr)
  from any_attribute_appends [OF x] have "od_schema s1 = od_schema self" by auto
  then have "resolves_to s1 = resolves_to self"
    by (intro ext resolves_to_same_lookup [THEN fun_cong]) simp
  with Cons.IH [OF rest] x ts show ?case by (auto simp: resolves_to_def)
qed

lemma oneof_types_complete:
  "list_all2 (resolves_to self) xs ts \<Longrightarrow> \<exists>self'. oneof_types self xs = Inr (ts, self')"
proof (induction xs arbitrary: self ts)
  case Nil
  then show ?case by simp
next
  case (Cons x xs)
  from Cons.prems obtain t ts' where ts: "ts = t # ts'" and x: "resolves_to self x t"
    and rest: "list_all2 (resolves_to self) xs ts'"
    by (auto simp: list_all2_Cons1)
  from x obtain s1 where s1: "any_attribute self x = Inr (t, s1)" by (auto simp: resolves_to_def)
  from any_attribute_appends [OF s1] have "od_schema s1 = od_schema self" by auto
  then have "resolves_to s1 = resolves_to self"
    by (intro ext resolves_to_same_lookup [THEN fun_cong]) simp
  with rest Cons.IH [of s1 ts'] obtain self' where "oneof_types s1 xs = Inr (ts', self')" by auto
  with s1 ts show ?case by simp
qed

lemma list_all2_functional_permute:
  assumes "list_all2 R xs ts" and "mset ys = mset xs"
    and fn: "\<And>x t t'. R x t \<Longrightarrow> R x t' \<Longrightarrow> t = t'"
  shows "\<exists>ts'. list_all2 R ys ts' \<and> mset ts' = mset ts"
proof -
  define f where "f x = (THE t. R x t)" for x
  have f: "f x = t" if "R x t" for x t
    unfolding f_def using that fn by (intro the_equality) auto
  from assms(1) have ts: "ts = map f xs"
    by (induction rule: list_all2_induct) (simp_all add: f)
  from assms(1) have "\<forall>x \<in> set xs. R x (f x)"
    by (induction rule: list_all2_induct) (auto simp: f)
  moreover from assms(2) have "set ys = set xs" by (rule mset_eq_setD)
  ultimately have "list_all2 R ys (map f ys)"
    by (simp add: list.rel_map list_all2_same)
  moreover have "mset (map f ys) = mset ts"
    using assms(2) ts by simp
  ultimately show ?thesis by blast
qed

text \<open>
  C3. A \<^verbatim>\<open>oneOf\<close> descriptor renders as \<^verbatim>\<open>T.Union([...])\<close> around the texts of its
  alternatives, each resolved on its own, sorted as strings and joined by a comma and a
  space. Hence a descriptor whose alternatives are a permutation of these renders the
  same text.
\<close>

theorem oneof_attribute_sorted_union:
  assumes "getitem attr_dict ''oneOf'' = Inr alternatives"
    and "iter_json alternatives = Inr attrs"
    and "oneof_attribute self attr_dict = Inr (text, self')"
  shows "\<exists>types. list_all2 (resolves_to self) attrs types
           \<and> text = ''T.Union(['' @ str_join '', '' (sort types) @ ''])''
           \<and> (\<forall>attr_dict2 alternatives2 attrs2.
                 getitem attr_dict2 ''oneOf'' = Inr alternatives2 \<longrightarrow>
                 iter_json alternatives2 = Inr attrs2 \<longrightarrow>
                 mset attrs2 = mset attrs \<longrightarrow>
                 (\<exists>self2'. oneof_attribute self attr_dict2 = Inr (text, self2')))"
proof -
  from assms obtain types where t: "oneof_types self attrs = Inr (types, self')"
    and rendered: "text = ''T.Union(['' @ str_join '', '' (sort types) @ ''])''"
    by (auto simp: oneof_attribute.simps [of self attr_dict] and_then_eq_Inr)
  from t have all: "list_all2 (resolves_to self) attrs types" by (rule oneof_types_texts)
  have "\<exists>self2'. oneof_attribute self attr_dict2 = Inr (text, self2')"
    if g: "getitem attr_dict2 ''oneOf'' = Inr alternatives2"
      and i: "iter_json alternatives2 = Inr attrs2" and m: "mset attrs2 = mset attrs"
    for attr_dict2 alternatives2 attrs2
  proof -
    have "\<exists>ts'. list_all2 (resolves_to self) attrs2 ts' \<and> mset ts' = mset types"
      using all m by (rule list_all2_functional_permute) (rule resolves_to_functional)
    then obtain types2 where all2: "list_all2 (resolves_to self) attrs2 types2"
      and m2: "mset types2 = mset types" by blast
    from oneof_types_complete [OF all2] obtain self2' where
      "oneof_types self attrs2 = Inr (types2, self2')" ..
    moreover from m2 have "sort types2 = sort types"
      by (intro properties_for_sort) simp_all
    ultimately show ?thesis
      using g i rendered by (simp add: oneof_attribute.simps [of self attr_dict2])
  qed
  with all rendered show ?thesis by blast
qed

text \<open>\<^verbatim>\<open>[number, boolean]\<close> and \<^verbatim>\<open>[boolean, number]\<close> both render with \<^verbatim>\<open>T.Bool\<close> first.\<close>

theorem oneof_attribute_sorted_union_witness:
  "(\<exists>s. oneof_attribute obj_A
           (JObj [(''oneOf'', JArr [JObj [(''type'', JStr ''number'')],
                                    JObj [(''type'', JStr ''boolean'')]])])
         = Inr (''T.Union([T.Bool(allow_none=True, default_value=None), ''
                @ ''T.CFloat(allow_none=True, default_value=None)])'', s))
   \<and> (\<exists>s. oneof_attribute obj_A
           (JObj [(''oneOf'', JArr [JObj [(''type'', JStr ''boolean'')],
                                    JObj [(''type'', JStr ''number'')]])])
         = Inr (''T.Union([T.Bool(allow_none=True, default_value=None), ''
                @ ''T.CFloat(allow_none=True, default_value=None)])'', s))"
proof -
  let ?n = "JObj [(''type'', JStr ''number'')]" and ?b = "JObj [(''type'', JStr ''boolean'')]"
  let ?text = "''T.Union([T.Bool(allow_none=True, default_value=None), ''
                @ ''T.CFloat(allow_none=True, default_value=None)])''"
  have e: "oneof_attribute obj_A (JObj [(''oneOf'', JArr [?n, ?b])]) = Inr (?text, obj_A)"
    by code_simp
  have g: "getitem (JObj [(''oneOf'', JArr [?n, ?b])]) ''oneOf'' = Inr (JArr [?n, ?b])"
      "getitem (JObj [(''oneOf'', JArr [?b, ?n])]) ''oneOf'' = Inr (JArr [?b, ?n])"
    by (simp_all add: getitem_def)
  have i: "iter_json (JArr [?n, ?b]) = Inr [?n, ?b]" "iter_json (JArr [?b, ?n]) = Inr [?b, ?n]"
    by (simp_all add: iter_json_def)
  have m: "mset [?b, ?n] = mset [?n, ?b]" by simp
  from oneof_attribute_sorted_union [OF g(1) i(1) e] g(2) i(2) m
  have "\<exists>s. oneof_attribute obj_A (JObj [(''oneOf'', JArr [?b, ?n])]) = Inr (?text, s)"
    by blast
  with e show ?thesis by blast
qed

section \<open>The attribute lines of an object definition (C4)\<close>

lemma same_outcome_code_attrs:
  assumes "lookup_definition (od_schema self2) = lookup_definition (od_schema self)"
  shows "same_outcome self (code_attrs self kvs) self2 (code_attrs self2 kvs)"
  using assms
proof (induction kvs arbitrary: self self2)
  case Nil
  show ?case by simp
next
  case (Cons kv kvs)
  have first: "same_outcome self (any_attribute self (snd kv)) self2 (any_attribute self2 (snd kv))"
    using same_outcome_resolve(1) [of self "snd kv"] Cons.prems by blast
  show ?case
    unfolding code_attrs.simps
  proof (rule same_outcome_and_then [OF first])
    fix t adds
    have "same_outcome (add_imports self adds) (code_attrs (add_imports self adds) kvs)
            (add_imports self2 adds) (code_attrs (add_imports self2 adds) kvs)"
      using Cons.prems by (intro Cons.IH) simp
    then show "same_outcome (add_imports self adds)
        (case (t, add_imports self adds) of
         (t, self') \<Rightarrow> and_then (code_attrs self' kvs)
                        (\<lambda>(ls, self''). Inr (attr_template (fst kv) t # ls, self'')))
        (add_imports self2 adds)
        (case (t, add_imports self2 adds) of
         (t, self') \<Rightarrow> and_then (code_attrs self' kvs)
                        (\<lambda>(ls, self''). Inr (attr_template (fst kv) t # ls, self'')))"
      unfolding prod.case by (rule same_outcome_Inr_and_then)
  qed
qed

lemma code_attrs_texts:
  "code_attrs self kvs = Inr (ls, self') \<Longrightarrow>
     \<exists>ts. list_all2 (\<lambda>kv. resolves_to self (snd kv)) kvs ts
        \<and> ls = map2 attr_template (map fst kvs) ts"
proof (induction kvs arbitrary: self ls self')
  case Nil
  then show ?case by simp
next
  case (Cons kv kvs)
  from Cons.prems obtain t s1 ls' where x: "any_attribute self (snd kv) = Inr (t, s1)"
    and rest: "code_attrs s1 kvs = Inr (ls', self')" and ls: "ls = attr_template (fst kv) t # ls'"
    by (auto simp: and_then_eq_Inr)
  from any_attribute_appends [OF x] have "od_schema s1 = od_schema self" by auto
  then have eq: "resolves_to s1 = resolves_to self"
    by (intro ext resolves_to_same_lookup [THEN fun_cong]) simp
  from Cons.IH [OF rest] obtain ts where
    "list_all2 (\<lambda>kv. resolves_to s1 (snd kv)) kvs ts" "ls' = map2 attr_template (map fst kvs) ts"
    by blast
  with x ls eq have "list_all2 (\<lambda>kv. resolves_to self (snd kv)) (kv # kvs) (t # ts)
      \<and> ls = map2 attr_template (map fst (kv # kvs)) (t # ts)"
    by (auto simp: resolves_to_def)
  then show ?case by blast
qed

lemma sort_key_fst_permutation:
  assumes "distinct (map fst props)" and "mset props' = mset props"
  shows "sort_key fst props' = sort_key fst props"
proof (rule sort_key_eq_sort_key)
  show "mset props' = mset props" by fact
  from assms(1) have "inj_on fst (set props)" by (simp add: distinct_map)
  with mset_eq_setD [OF assms(2)] show "inj_on fst (set props')" by simp
qed

text \<open>
  C4. The code of an object definition is the class header followed by one attribute line
  for every property, \<^verbatim>\<open>name = text\<close>, in ascending order of the property names; the text
  is that of the property's descriptor, resolved on its own. The order in which the
  mapping holds the properties does not matter: any rearrangement gives the same code.
\<close>

theorem ObjectDefinition_code_sorted_properties:
  assumes "od_prop_dict self = JObj props"
    and "distinct (map fst props)"
    and "ObjectDefinition_code self = Inr (text, self')"
  shows "\<exists>ts. list_all2 (\<lambda>kv. resolves_to self (snd kv)) (sort_key fst props) ts
           \<and> text = class_template (od_name self)
                      @ concat (map2 attr_template (map fst (sort_key fst props)) ts)
           \<and> sorted (map fst (sort_key fst props))
           \<and> mset (sort_key fst props) = mset props
           \<and> (\<forall>props'. mset props' = mset props \<longrightarrow>
                 ObjectDefinition_code (self\<lparr>od_prop_dict := JObj props'\<rparr>)
                   = Inr (text, self'\<lparr>od_prop_dict := JObj props'\<rparr>))"
proof -
  from assms(1,3) obtain ls where c: "code_attrs self (sort_key fst props) = Inr (ls, self')"
    and rendered: "text = class_template (od_name self) @ concat ls"
    by (auto simp: ObjectDefinition_code_def dict_items_def and_then_eq_Inr)
  from code_attrs_texts [OF c] obtain ts where
    ts: "list_all2 (\<lambda>kv. resolves_to self (snd kv)) (sort_key fst props) ts"
      "ls = map2 attr_template (map fst (sort_key fst props)) ts"
    by blast
  have perm: "ObjectDefinition_code (self\<lparr>od_prop_dict := JObj props'\<rparr>)
          = Inr (text, self'\<lparr>od_prop_dict := JObj props'\<rparr>)"
    if m: "mset props' = mset props" for props'
  proof -
    let ?self2 = "self\<lparr>od_prop_dict := JObj props'\<rparr>"
    have "same_outcome self (code_attrs self (sort_key fst props))
            ?self2 (code_attrs ?self2 (sort_key fst props))"
      by (rule same_outcome_code_attrs) simp
    with c obtain adds where "self' = add_imports self adds"
      and "code_attrs ?self2 (sort_key fst props) = Inr (ls, add_imports ?self2 adds)"
      by (auto simp: same_outcome_def)
    moreover have "sort_key fst props' = sort_key fst props"
      using assms(2) m by (rule sort_key_fst_permutation)
    ultimately show ?thesis
      using rendered by (simp add: ObjectDefinition_code_def dict_items_def add_imports_def)
  qed
  have srt: "sorted (map fst (sort_key fst props))" "mset (sort_key fst props) = mset props"
    by simp_all
  show ?thesis
  proof (intro exI [of _ ts] conjI allI impI)
    show "text = class_template (od_name self)
                   @ concat (map2 attr_template (map fst (sort_key fst props)) ts)"
      using rendered ts(2) by (simp only:)
  qed (fact ts(1) srt perm)+
qed

text \<open>The properties of \<open>A\<close> are declared as \<^verbatim>\<open>u, n, c, b, k\<close> and rendered as
  \<^verbatim>\<open>b, c, k, n, u\<close>, also when they are declared in the opposite order.\<close>

definition class_A_code :: string where
  "class_A_code =
     ''class A(BaseObject):\<newline>''
     @ ''    b = T.Instance(B, allow_none=True, default_value=None)\<newline>''
     @ ''    c = T.List(T.Instance(B, allow_none=True, default_value=None), allow_none=True, default_value=None)\<newline>''
     @ ''    k = Color(allow_none=True, default_value=None)\<newline>''
     @ ''    n = T.CFloat(allow_none=True, default_value=None, min=0, help='' @ triple_quote @ ''How many.'' @ triple_quote @ '')\<newline>''
     @ ''    u = T.Union([T.Bool(allow_none=True, default_value=None), T.CFloat(allow_none=True, default_value=None)])\<newline>''"

theorem ObjectDefinition_code_sorted_properties_witness:
  "ObjectDefinition_code obj_A
     = Inr (class_A_code,
            obj_A\<lparr>od_imports := od_imports obj_A
                     @ [''from .b import B'', ''from .b import B'', ''from .color import Color'']\<rparr>)
   \<and> ObjectDefinition_code (obj_A\<lparr>od_prop_dict := JObj (rev props_A)\<rparr>)
     = Inr (class_A_code,
            obj_A\<lparr>od_imports := od_imports obj_A
                     @ [''from .b import B'', ''from .b import B'', ''from .color import Color''],
                   od_prop_dict := JObj (rev props_A)\<rparr>)"
proof -
  let ?obj' = "obj_A\<lparr>od_imports := od_imports obj_A
                 @ [''from .b import B'', ''from .b import B'', ''from .color import Color'']\<rparr>"
  have e: "ObjectDefinition_code obj_A = Inr (class_A_code, ?obj')"
    by code_simp
  have p: "od_prop_dict obj_A = JObj props_A"
    by (simp add: obj_A_def)
  have d: "distinct (map fst props_A)"
    by (simp add: props_A_def)
  have "mset (rev props_A) = mset props_A" by simp
  with ObjectDefinition_code_sorted_properties [OF p d e]
  have "ObjectDefinition_code (obj_A\<lparr>od_prop_dict := JObj (rev props_A)\<rparr>)
          = Inr (class_A_code, ?obj'\<lparr>od_prop_dict := JObj (rev props_A)\<rparr>)"
    by blast
  with e show ?thesis by simp
qed

section \<open>The imports of an object definition (C1)\<close>

lemma attr_size_member: "x \<in> set xs \<Longrightarrow> attr_size x < attrs_size xs"
  unfolding attrs_size_def by (induction xs) auto

text \<open>The targets of the references in a descriptor, in the order in which
  \<^verbatim>\<open>any_attribute\<close> meets them: the descriptor's own \<^verbatim>\<open>$ref\<close>, or those of the items of an
  array, or those of the alternatives of a union, from left to right. This is the
  specification's "every Reference encountered (directly, or inside array/union
  recursion)", to compare the code with.\<close>

function ref_targets :: "json \<Rightarrow> string list" where
  "ref_targets attr_dict =
     (if contains ''type'' attr_dict = Inr True then
        (if getitem attr_dict ''type'' = Inr (JStr ''array'')
         then (case getitem attr_dict ''items'' of Inr items \<Rightarrow> ref_targets items | Inl e \<Rightarrow> [])
         else [])
      else if contains ''$ref'' attr_dict = Inr True then
        (case and_then (getitem attr_dict ''$ref'') ref_name of
           Inr name \<Rightarrow> [name] | Inl e \<Rightarrow> [])
      else if contains ''oneOf'' attr_dict = Inr True then
        (case and_then (getitem attr_dict ''oneOf'') iter_json of
           Inr attrs \<Rightarrow> concat (map ref_targets attrs) | Inl e \<Rightarrow> [])
      else [])"
  by pat_completeness auto
termination
proof (relation "measure attr_size", goal_cases)
  case 1
  show ?case by simp
next
  case (2 attr_dict items)
  from \<open>getitem attr_dict ''items'' = Inr items\<close> have "jsize items < attr_size attr_dict"
    by (rule getitem_attr_size)
  with attr_size_le_jsize [of items] show ?case by simp
next
  case (3 attr_dict attrs x)
  from \<open>and_then (getitem attr_dict ''oneOf'') iter_json = Inr attrs\<close>
  obtain v where v: "getitem attr_dict ''oneOf'' = Inr v" and i: "iter_json v = Inr attrs"
    by (auto simp: and_then_eq_Inr)
  from v have "jsize v < attr_size attr_dict" by (rule getitem_attr_size)
  with iter_json_attrs_size [OF i] attr_size_member [OF \<open>x \<in> set attrs\<close>]
  show ?case by simp
qed

declare ref_targets.simps [simp del]

lemma ref_attribute_imports:
  assumes "ref_attribute self a = Inr (t, self')"
  shows "\<exists>name. and_then (getitem a ''$ref'') ref_name = Inr name
           \<and> self' = add_imports self [import_line name]"
  using assms
  by (auto simp: ref_attribute_def and_then_eq_Inr Let_def add_imports_def split: if_splits)

lemma resolve_imports:
  "\<forall>t self'. any_attribute s1 a = Inr (t, self') \<longrightarrow>
      self' = add_imports s1 (map import_line (ref_targets a))"
  "\<forall>t self'. type_attribute s2 b = Inr (t, self') \<longrightarrow>
      self' = add_imports s2 (map import_line
        (if getitem b ''type'' = Inr (JStr ''array'')
         then (case getitem b ''items'' of Inr items \<Rightarrow> ref_targets items | Inl e \<Rightarrow> [])
         else []))"
  "\<forall>t self'. oneof_attribute s3 c = Inr (t, self') \<longrightarrow>
      self' = add_imports s3 (map import_line
        (case and_then (getitem c ''oneOf'') iter_json of
           Inr attrs \<Rightarrow> concat (map ref_targets attrs) | Inl e \<Rightarrow> []))"
  "\<forall>ts self'. oneof_types s4 xs = Inr (ts, self') \<longrightarrow>
      self' = add_imports s4 (map import_line (concat (map ref_targets xs)))"
proof (induction s1 a and s2 b and s3 c and s4 xs
       rule: any_attribute_type_attribute_oneof_attribute_oneof_types.induct)
  case (1 self attr_dict)
  show ?case
  proof (intro allI impI)
    fix t self'
    assume r: "any_attribute self attr_dict = Inr (t, self')"
    then obtain v where v: "contains ''type'' attr_dict = Inr v"
      by (auto simp: any_attribute.simps [of self attr_dict] and_then_eq_Inr)
    show "self' = add_imports self (map import_line (ref_targets attr_dict))"
    proof (cases v)
      case True
      with r v have "type_attribute self attr_dict = Inr (t, self')"
        by (simp add: any_attribute.simps [of self attr_dict])
      with "1.IH"(1) [OF v True] v True show ?thesis
        by (simp add: ref_targets.simps [of attr_dict])
    next
      case False
      with r v obtain va where va: "contains ''$ref'' attr_dict = Inr va"
        by (auto simp: any_attribute.simps [of self attr_dict] and_then_eq_Inr)
      show ?thesis
      proof (cases va)
        case True
        with r v va \<open>\<not> v\<close> have "ref_attribute self attr_dict = Inr (t, self')"
          by (simp add: any_attribute.simps [of self attr_dict])
        from ref_attribute_imports [OF this] v va \<open>\<not> v\<close> True show ?thesis
          by (auto simp: ref_targets.simps [of attr_dict])
      next
        case False
        with r v va \<open>\<not> v\<close> obtain vb where vb: "contains ''oneOf'' attr_dict = Inr vb"
          and "vb" and o: "oneof_attribute self attr_dict = Inr (t, self')"
          by (auto simp: any_attribute.simps [of self attr_dict] and_then_eq_Inr split: if_splits)
        with "1.IH"(2) [OF v \<open>\<not> v\<close> va False vb \<open>vb\<close>] v va \<open>\<not> v\<close> False show ?thesis
          by (simp add: ref_targets.simps [of attr_dict])
      qed
    qed
  qed
next
  case (2 self attr_dict)
  show ?case
  proof (intro allI impI)
    fix t self'
    assume r: "type_attribute self attr_dict = Inr (t, self')"
    then obtain kwds tp where k: "get_attr_kwds attr_dict = Inr kwds"
      and tp: "getitem attr_dict ''type'' = Inr tp"
      by (auto simp: type_attribute.simps [of self attr_dict] and_then_eq_Inr)
    show "self' = add_imports self (map import_line
        (if getitem attr_dict ''type'' = Inr (JStr ''array'')
         then (case getitem attr_dict ''items'' of Inr items \<Rightarrow> ref_targets items | Inl e \<Rightarrow> [])
         else []))"
    proof (cases "tp = JStr ''array''")
      case True
      with r k tp obtain items typename where i: "getitem attr_dict ''items'' = Inr items"
        and a: "any_attribute self items = Inr (typename, self')"
        by (auto simp: type_attribute.simps [of self attr_dict] and_then_eq_Inr)
      with "2.IH" [OF k tp True i] tp True show ?thesis by simp
    next
      case False
      with r k tp have "self' = self"
        by (auto simp: type_attribute.simps [of self attr_dict] split: if_splits)
      with tp False show ?thesis by simp
    qed
  qed
next
  case (3 self attr_dict)
  show ?case
  proof (intro allI impI)
    fix t self'
    assume r: "oneof_attribute self attr_dict = Inr (t, self')"
    then obtain v attrs ts where v: "getitem attr_dict ''oneOf'' = Inr v"
      and i: "iter_json v = Inr attrs" and o: "oneof_types self attrs = Inr (ts, self')"
      by (auto simp: oneof_attribute.simps [of self attr_dict] and_then_eq_Inr)
    with "3.IH" [OF v i] show "self' = add_imports self (map import_line
        (case and_then (getitem attr_dict ''oneOf'') iter_json of
           Inr attrs \<Rightarrow> concat (map ref_targets attrs) | Inl e \<Rightarrow> []))"
      by simp
  qed
next
  case (4 self)
  show ?case by simp
next
  case (5 self attr attrs)
  show ?case
  proof (intro allI impI)
    fix ts self'
    assume r: "oneof_types self (attr # attrs) = Inr (ts, self')"
    then obtain t s1 ts' where x: "any_attribute self attr = Inr (t, s1)"
      and rest: "oneof_types s1 attrs = Inr (ts', self')"
      by (auto simp: and_then_eq_Inr)
    from "5.IH"(1) x have s1: "s1 = add_imports self (map import_line (ref_targets attr))"
      by blast
    from "5.IH"(2) [OF x refl] rest
    have "self' = add_imports s1 (map import_line (concat (map ref_targets attrs)))"
      by blast
    with s1 show "self' = add_imports self (map import_line (concat (map ref_targets (attr # attrs))))"
      by simp
  qed
qed


lemma code_attrs_imports:
  "code_attrs self kvs = Inr (ls, self') \<Longrightarrow>
     self' = add_imports self (map import_line (concat (map (\<lambda>kv. ref_targets (snd kv)) kvs)))"
proof (induction kvs arbitrary: self ls self')
  case Nil
  then show ?case by simp
next
  case (Cons kv kvs)
  from Cons.prems obtain t s1 ls' where x: "any_attribute self (snd kv) = Inr (t, s1)"
    and rest: "code_attrs s1 kvs = Inr (ls', self')"
    by (auto simp: and_then_eq_Inr)
  from resolve_imports(1) x have "s1 = add_imports self (map import_line (ref_targets (snd kv)))"
    by blast
  with Cons.IH [OF rest] show ?case by simp
qed

text \<open>The references of an object definition: those of its properties, in the order of
  resolution.\<close>

definition reference_targets :: "(string \<times> json) list \<Rightarrow> string list" where
  "reference_targets props = concat (map (\<lambda>kv. ref_targets (snd kv)) (sort_key fst props))"

lemma length_lower [simp]: "length (lower s) = length s"
  by (simp add: lower_def)

lemma import_line_inj: "import_line a = import_line b \<Longrightarrow> a = b"
proof -
  assume eq: "import_line a = import_line b"
  then have "length (import_line a) = length (import_line b)" by simp
  then have "length (lower a) = length (lower b)" by (simp add: import_line_def)
  moreover from eq have "lower a @ ('' import '' @ a) = lower b @ ('' import '' @ b)"
    by (simp add: import_line_def)
  ultimately show "a = b" by simp
qed

lemma import_line_not_fixed:
  "import_line a \<noteq> ''import traitlets as T''"
  "import_line a \<noteq> ''from ..baseobject import BaseObject''"
proof -
  show "import_line a \<noteq> ''import traitlets as T''"
    by (simp add: import_line_def)
  have "length (import_line a) = 14 + 2 * length a"
    by (simp add: import_line_def)
  moreover have "length ''from ..baseobject import BaseObject'' = 35" by simp
  ultimately show "import_line a \<noteq> ''from ..baseobject import BaseObject''"
    by (metis even_add even_mult_iff even_numeral odd_numeral)
qed

text \<open>The import list that \<^verbatim>\<open>class_definition\<close> joins into the text of the class file.\<close>

definition rendered_imports :: "schema_definition \<Rightarrow> error + string list" where
  "rendered_imports self =
     and_then (class_definition self) (\<lambda>(text, self'). Inr (imports_of self'))"

text \<open>
  C1, as stated, fails on the code: \<^verbatim>\<open>ref_attribute\<close> appends its import line whether or not
  the list holds it already, and nothing removes duplicates. \<open>A\<close> refers to \<open>B\<close> directly
  (property \<open>b\<close>) and as the items of an array (property \<open>c\<close>), and its class file imports
  \<open>B\<close> twice.
\<close>

theorem class_definition_duplicate_import:
  "SchemaDefinition_init ''A'' schema_refs = Inr (ObjectDefinition obj_A)
   \<and> rendered_imports (ObjectDefinition obj_A)
     = Inr [''import traitlets as T'', ''from ..baseobject import BaseObject'',
            ''from .b import B'', ''from .b import B'', ''from .color import Color'']"
  by code_simp

text \<open>
  C1, amended. For an object definition (a new object, whose import list holds the two
  fixed imports), every reference met while its properties are resolved, directly or
  inside an array or a union, contributes exactly one import line of its target, once for
  each occurrence and in the order of resolution. So the import list that
  \<^verbatim>\<open>class_definition\<close> renders has no duplicate entries exactly when no target is referred
  to more than once.
\<close>

theorem class_definition_imports:
  assumes "od_imports obj = [''import traitlets as T'', ''from ..baseobject import BaseObject'']"
    and "od_prop_dict obj = JObj props"
    and "class_definition (ObjectDefinition obj) = Inr (text, self')"
  shows "imports_of self'
           = [''import traitlets as T'', ''from ..baseobject import BaseObject'']
             @ map import_line (reference_targets props)
       \<and> (\<exists>class_code. text = file_comment @ ''\<newline>\<newline>''
                            @ str_join ''\<newline>'' (imports_of self')
                            @ ''\<newline>\<newline>\<newline>'' @ class_code @ ''\<newline>'')
       \<and> (distinct (imports_of self') \<longleftrightarrow> distinct (reference_targets props))"
proof -
  note fresh = assms(1)
  from assms(3) obtain class_code obj' where c: "ObjectDefinition_code obj = Inr (class_code, obj')"
    and s: "self' = ObjectDefinition obj'"
    and rendered: "text = file_comment @ ''\<newline>\<newline>'' @ str_join ''\<newline>'' (od_imports obj')
                     @ ''\<newline>\<newline>\<newline>'' @ class_code @ ''\<newline>''"
    by (auto simp: class_definition_def and_then_eq_Inr Let_def)
  from c assms(2) obtain ls where "code_attrs obj (sort_key fst props) = Inr (ls, obj')"
    by (auto simp: ObjectDefinition_code_def dict_items_def and_then_eq_Inr)
  then have "obj' = add_imports obj (map import_line (reference_targets props))"
    unfolding reference_targets_def by (rule code_attrs_imports)
  with fresh s have lines: "imports_of self'
           = [''import traitlets as T'', ''from ..baseobject import BaseObject'']
             @ map import_line (reference_targets props)"
    by simp
  have "distinct (map import_line (reference_targets props)) \<longleftrightarrow> distinct (reference_targets props)"
    by (simp add: distinct_map inj_on_def import_line_inj [THEN sym])
  moreover have "''import traitlets as T'' \<notin> set (map import_line (reference_targets props))"
    and "''from ..baseobject import BaseObject'' \<notin> set (map import_line (reference_targets props))"
    using import_line_not_fixed [symmetric] by (simp_all add: image_iff)
  ultimately have "distinct (imports_of self') \<longleftrightarrow> distinct (reference_targets props)"
    unfolding lines by simp
  with lines rendered s show ?thesis by auto
qed

text \<open>\<open>A\<close> refers to \<open>B\<close>, \<open>B\<close> and \<open>Color\<close>, and its import list repeats the line for \<open>B\<close>;
  with the properties \<open>b\<close> and \<open>k\<close> alone it refers to \<open>B\<close> and \<open>Color\<close>, and the list has no
  duplicate.\<close>

theorem class_definition_imports_witness:
  "(\<exists>text self'. class_definition (ObjectDefinition obj_A) = Inr (text, self')
       \<and> imports_of self' = [''import traitlets as T'', ''from ..baseobject import BaseObject'']
                              @ map import_line [''B'', ''B'', ''Color'']
       \<and> \<not> distinct (imports_of self'))
   \<and> (\<exists>text self'.
         class_definition (ObjectDefinition (obj_A\<lparr>od_prop_dict :=
             JObj [(''k'', JObj [(''$ref'', JStr ''#/definitions/Color'')]),
                   (''b'', JObj [(''$ref'', JStr ''#/definitions/B'')])]\<rparr>)) = Inr (text, self')
       \<and> imports_of self' = [''import traitlets as T'', ''from ..baseobject import BaseObject'']
                              @ map import_line [''B'', ''Color'']
       \<and> distinct (imports_of self'))"
proof -
  let ?two = "[(''k'', JObj [(''$ref'', JStr ''#/definitions/Color'')]),
               (''b'', JObj [(''$ref'', JStr ''#/definitions/B'')])]"
  let ?obj2 = "obj_A\<lparr>od_prop_dict := JObj ?two\<rparr>"
  have fresh: "od_imports obj_A = [''import traitlets as T'', ''from ..baseobject import BaseObject'']"
      "od_imports ?obj2 = [''import traitlets as T'', ''from ..baseobject import BaseObject'']"
    and props: "od_prop_dict obj_A = JObj props_A" "od_prop_dict ?obj2 = JObj ?two"
    by (simp_all add: obj_A_def)
  have targets: "reference_targets props_A = [''B'', ''B'', ''Color'']"
      "reference_targets ?two = [''B'', ''Color'']"
    by code_simp+
  have "case class_definition (ObjectDefinition obj_A) of Inl e \<Rightarrow> False | Inr r \<Rightarrow> True"
    and "case class_definition (ObjectDefinition ?obj2) of Inl e \<Rightarrow> False | Inr r \<Rightarrow> True"
    by code_simp+
  then obtain text1 self1 text2 self2 where
    r1: "class_definition (ObjectDefinition obj_A) = Inr (text1, self1)" and
    r2: "class_definition (ObjectDefinition ?obj2) = Inr (text2, self2)"
    by (auto split: sum.splits)
  from class_definition_imports [OF fresh(1) props(1) r1]
  have a1: "imports_of self1 = [''import traitlets as T'', ''from ..baseobject import BaseObject'']
                              @ map import_line (reference_targets props_A)"
    and b1: "distinct (imports_of self1) \<longleftrightarrow> distinct (reference_targets props_A)"
    by blast+
  have "\<not> distinct (reference_targets props_A)"
    unfolding targets(1) by simp
  with b1 a1 [unfolded targets(1)]
  have "imports_of self1 = [''import traitlets as T'', ''from ..baseobject import BaseObject'']
                              @ map import_line [''B'', ''B'', ''Color'']
        \<and> \<not> distinct (imports_of self1)"
    by blast
  moreover from class_definition_imports [OF fresh(2) props(2) r2]
  have a2: "imports_of self2 = [''import traitlets as T'', ''from ..baseobject import BaseObject'']
                              @ map import_line (reference_targets ?two)"
    and b2: "distinct (imports_of self2) \<longleftrightarrow> distinct (reference_targets ?two)"
    by blast+
  have "distinct (reference_targets ?two)"
    unfolding targets(2) by simp
  with b2 a2 [unfolded targets(2)]
  have "imports_of self2 = [''import traitlets as T'', ''from ..baseobject import BaseObject'']
                              @ map import_line [''B'', ''Color'']
        \<and> distinct (imports_of self2)"
    by blast
  ultimately show ?thesis using r1 r2 by blast
qed

section \<open>The keywords of a union (C2)\<close>

text \<open>
  C2 does not hold for the code, and the code is at fault. \<^verbatim>\<open>type_attribute\<close> and
  \<^verbatim>\<open>ref_attribute\<close> both start with \<^verbatim>\<open>kwds = self.get_attr_kwds(attr_dict)\<close> and render the
  keywords; \<^verbatim>\<open>oneof_attribute\<close> never calls \<^verbatim>\<open>get_attr_kwds\<close> and renders
  \<^verbatim>\<open>T.Union([...])\<close> with no keyword at all. A union without alternatives renders as
  \<^verbatim>\<open>T.Union([])\<close>, which carries neither \<^verbatim>\<open>allow_none=True\<close> nor \<^verbatim>\<open>default_value=None\<close>; a
  union of a number and a boolean has the two keywords inside each alternative only, and
  loses its description, which the same descriptor keeps when it is typed.
\<close>

theorem oneof_attribute_without_keywords:
  "any_attribute obj_A (JObj [(''oneOf'', JArr []), (''description'', JStr ''Nothing.'')])
     = Inr (''T.Union([])'', obj_A)
   \<and> any_attribute obj_A
       (JObj [(''oneOf'', JArr [JObj [(''type'', JStr ''number'')],
                                JObj [(''type'', JStr ''boolean'')]]),
              (''description'', JStr ''A union.'')])
     = Inr (''T.Union([T.Bool(allow_none=True, default_value=None), ''
            @ ''T.CFloat(allow_none=True, default_value=None)])'', obj_A)
   \<and> any_attribute obj_A (JObj [(''type'', JStr ''number''), (''description'', JStr ''A union.'')])
     = Inr (''T.CFloat(allow_none=True, default_value=None, help=''
            @ triple_quote @ ''A union.'' @ triple_quote @ '')'', obj_A)"
  by code_simp

section \<open>The whole run (C7)\<close>

text \<open>The two texts \<^verbatim>\<open>write_python_wrappers\<close> writes for a definition object.\<close>

definition class_and_test :: "schema_definition \<Rightarrow> error + (string \<times> string)" where
  "class_and_test obj =
     and_then (class_definition obj) (\<lambda>(class_text, obj'). Inr (class_text, test_script obj'))"

lemma and_then_assoc: "and_then (and_then m f) g = and_then m (\<lambda>v. and_then (f v) g)"
  by (cases m) simp_all

lemma write_modules_Cons:
  "write_modules schema (name # names) =
     and_then (and_then (SchemaDefinition_init name schema) class_and_test)
       (\<lambda>(class_text, test_text).
          and_then (write_modules schema names) (\<lambda>(ms, init_lines).
            Inr (\<lparr>gm_module = lower name, gm_class_source = class_text,
                    gm_test_source = test_text\<rparr> # ms,
                 (''\<newline>from .'' @ lower name @ '' import '' @ name) @ init_lines)))"
  by (simp add: class_and_test_def and_then_assoc Let_def split_def)

lemma ObjectDefinition_code_same_lookup:
  assumes "lookup_definition (od_schema obj2) = lookup_definition (od_schema obj)"
    and "od_name obj2 = od_name obj" and "od_prop_dict obj2 = od_prop_dict obj"
  shows "same_outcome obj (ObjectDefinition_code obj) obj2 (ObjectDefinition_code obj2)"
  unfolding ObjectDefinition_code_def Let_def assms(2,3)
  by (intro same_outcome_pure same_outcome_Inr_and_then same_outcome_code_attrs assms(1))

lemma class_and_test_same_lookup:
  assumes "lookup_definition (od_schema obj2) = lookup_definition (od_schema obj)"
    and "od_name obj2 = od_name obj" and "od_prop_dict obj2 = od_prop_dict obj"
    and "od_imports obj2 = od_imports obj"
  shows "class_and_test (ObjectDefinition obj2) = class_and_test (ObjectDefinition obj)"
proof (cases "ObjectDefinition_code obj")
  case (Inl e)
  with ObjectDefinition_code_same_lookup [OF assms(1-3)]
  have "ObjectDefinition_code obj2 = Inl e" by (simp add: same_outcome_def)
  with Inl show ?thesis by (simp add: class_and_test_def class_definition_def)
next
  case (Inr r)
  obtain c obj' where r: "r = (c, obj')" by (cases r)
  with Inr ObjectDefinition_code_same_lookup [OF assms(1-3)] obtain adds where
    "obj' = add_imports obj adds" "ObjectDefinition_code obj2 = Inr (c, add_imports obj2 adds)"
    by (auto simp: same_outcome_def)
  with Inr r assms(2,4) show ?thesis
    by (simp add: class_and_test_def class_definition_def test_script_def add_imports_def)
qed

lemma class_and_test_string:
  assumes "sd_name obj2 = sd_name obj" and "sd_definition obj2 = sd_definition obj"
    and "sd_imports obj2 = sd_imports obj"
  shows "class_and_test (StringDefinition obj2) = class_and_test (StringDefinition obj)"
proof -
  have "StringDefinition_code obj2 = StringDefinition_code obj"
    by (simp add: StringDefinition_code_def assms cong: if_cong)
  then show ?thesis
    by (cases "StringDefinition_code obj")
       (simp_all add: class_and_test_def class_definition_def test_script_def assms)
qed

lemma init_class_and_test_same_lookup:
  assumes "lookup_definition schema2 = lookup_definition schema"
  shows "and_then (SchemaDefinition_init name schema2) class_and_test
           = and_then (SchemaDefinition_init name schema) class_and_test"
proof -
  have obj: "and_then (and_then (ObjectDefinition_init name schema2) (\<lambda>obj. Inr (ObjectDefinition obj)))
                class_and_test
           = and_then (and_then (ObjectDefinition_init name schema) (\<lambda>obj. Inr (ObjectDefinition obj)))
                class_and_test"
  proof (cases "lookup_definition schema name")
    case Inl
    then show ?thesis by (simp add: ObjectDefinition_init_def assms)
  next
    case (Inr d)
    note d = this
    show ?thesis
    proof (cases "getitem d ''properties''")
      case Inl
      with d show ?thesis by (simp add: ObjectDefinition_init_def assms)
    next
      case (Inr props)
      with d show ?thesis
        by (simp add: ObjectDefinition_init_def assms class_and_test_same_lookup)
    qed
  qed
  have str: "and_then (and_then (StringDefinition_init name schema2) (\<lambda>obj. Inr (StringDefinition obj)))
                class_and_test
           = and_then (and_then (StringDefinition_init name schema) (\<lambda>obj. Inr (StringDefinition obj)))
                class_and_test"
    by (cases "lookup_definition schema name")
       (simp_all add: StringDefinition_init_def assms class_and_test_string)
  show ?thesis
  proof (cases "lookup_definition schema name")
    case Inl
    then show ?thesis by (simp add: SchemaDefinition_init_def assms)
  next
    case (Inr d)
    note d = this
    show ?thesis
    proof (cases "getitem d ''type''")
      case Inl
      with d show ?thesis by (simp add: SchemaDefinition_init_def assms)
    next
      case (Inr kind)
      with d obj str show ?thesis
        by (simp add: SchemaDefinition_init_def assms)
    qed
  qed
qed

lemma write_modules_same_lookup:
  assumes "lookup_definition schema2 = lookup_definition schema"
  shows "write_modules schema2 names = write_modules schema names"
proof (induction names)
  case Nil
  show ?case by simp
next
  case (Cons name names)
  then show ?case
    unfolding write_modules_Cons init_class_and_test_same_lookup [OF assms] by simp
qed

lemma write_modules_names:
  "write_modules schema names = Inr (ms, init_lines) \<Longrightarrow> map gm_module ms = map lower names"
proof (induction names arbitrary: ms init_lines)
  case Nil
  then show ?case by simp
next
  case (Cons name names)
  from Cons.prems obtain ms' il where "write_modules schema names = Inr (ms', il)"
    and "gm_module (hd ms) = lower name" and "ms = hd ms # ms'"
    unfolding write_modules_Cons by (auto simp: and_then_eq_Inr)
  with Cons.IH [of ms' il] show ?case by (metis list.simps(9))
qed

lemma init_all_names: "init_all schema names = Inr ds \<Longrightarrow> map fst ds = names"
  by (induction names arbitrary: ds) (auto simp: and_then_eq_Inr)

lemma lookup_definition_permutation:
  assumes "getitem schema ''definitions'' = Inr (JObj defs)"
    and "getitem schema2 ''definitions'' = Inr (JObj defs2)"
    and "distinct (map fst defs)" and "mset defs2 = mset defs"
  shows "lookup_definition schema2 = lookup_definition schema"
proof -
  from assms(4) have "mset (map fst defs2) = mset (map fst defs)" by simp
  with assms(3) have "distinct (map fst defs2)" by (metis mset_eq_imp_distinct_iff)
  moreover from assms(4) have "set defs2 = set defs" by (rule mset_eq_setD)
  ultimately have "map_of defs2 = map_of defs"
    using assms(3) by (simp add: map_of_inject_set)
  with assms(1,2) show ?thesis
    by (intro ext) (simp add: lookup_definition_def getitem_JObj)
qed

text \<open>
  C7. \<^verbatim>\<open>write_python_wrappers\<close> is a function of the schema document alone: every run builds
  its definition objects anew, so nothing of an earlier run can reach a later one, and
  two runs on one document return the same texts. What could still vary is the order in
  which the document's mapping holds the definitions, and it does not matter: the
  modules are written in ascending order of the definition names (so is the sequence
  \<^verbatim>\<open>definitions\<close> yields), and a document that holds the same definitions in another order
  gives the same result, text for text.
\<close>

theorem write_python_wrappers_deterministic:
  assumes "getitem schema ''definitions'' = Inr (JObj defs)"
  shows "(\<forall>ms index. write_python_wrappers schema = Inr (ms, index) \<longrightarrow>
            map gm_module ms = map lower (sort (map fst defs)))
       \<and> (\<forall>ds. definitions schema = Inr ds \<longrightarrow> map fst ds = sort (map fst defs))
       \<and> (\<forall>schema2 defs2. getitem schema2 ''definitions'' = Inr (JObj defs2) \<longrightarrow>
            distinct (map fst defs) \<longrightarrow> mset defs2 = mset defs \<longrightarrow>
            write_python_wrappers schema2 = write_python_wrappers schema)"
proof (intro conjI allI impI)
  fix ms index
  assume "write_python_wrappers schema = Inr (ms, index)"
  with assms obtain il where "write_modules schema (sort (map fst defs)) = Inr (ms, il)"
    by (auto simp: write_python_wrappers_def sorted_names_def and_then_eq_Inr)
  then show "map gm_module ms = map lower (sort (map fst defs))"
    by (rule write_modules_names)
next
  fix ds
  assume "definitions schema = Inr ds"
  with assms have "init_all schema (sort (map fst defs)) = Inr ds"
    by (simp add: definitions_def sorted_names_def)
  then show "map fst ds = sort (map fst defs)"
    by (rule init_all_names)
next
  fix schema2 defs2
  assume d2: "getitem schema2 ''definitions'' = Inr (JObj defs2)"
    and dist: "distinct (map fst defs)" and m: "mset defs2 = mset defs"
  have "lookup_definition schema2 = lookup_definition schema"
    using assms d2 dist m by (rule lookup_definition_permutation)
  then have "write_modules schema2 names = write_modules schema names" for names
    by (rule write_modules_same_lookup)
  moreover from m have "sort (map fst defs2) = sort (map fst defs)"
    by (intro properties_for_sort) simp_all
  ultimately show "write_python_wrappers schema2 = write_python_wrappers schema"
    using assms d2 by (simp add: write_python_wrappers_def sorted_names_def)
qed

text \<open>The document of two definitions, declared as \<open>Foo\<close>, \<open>Color\<close>: the modules are
  \<^verbatim>\<open>color\<close>, \<^verbatim>\<open>foo\<close>, and the document that declares \<open>Color\<close> first gives the same
  result.\<close>

theorem write_python_wrappers_deterministic_witness:
  "(\<exists>ms index. write_python_wrappers schema_small = Inr (ms, index)
       \<and> map gm_module ms = [''color'', ''foo''])
   \<and> write_python_wrappers (JObj [(''definitions'', JObj (rev defs_small))])
       = write_python_wrappers schema_small"
proof -
  have g: "getitem schema_small ''definitions'' = Inr (JObj defs_small)"
    and g2: "getitem (JObj [(''definitions'', JObj (rev defs_small))]) ''definitions''
               = Inr (JObj (rev defs_small))"
    by (simp_all add: schema_small_def getitem_def)
  have "case write_python_wrappers schema_small of Inl e \<Rightarrow> False | Inr r \<Rightarrow> True"
    by code_simp
  then obtain ms index where r: "write_python_wrappers schema_small = Inr (ms, index)"
    by (auto split: sum.splits)
  have names: "map lower (sort (map fst defs_small)) = [''color'', ''foo'']"
    by code_simp
  have d: "distinct (map fst defs_small)"
    by (simp add: defs_small_def)
  have m: "mset (rev defs_small) = mset defs_small" by simp
  from write_python_wrappers_deterministic [OF g] r names
  have sorted_modules: "map gm_module ms = [''color'', ''foo'']" by metis
  from write_python_wrappers_deterministic [OF g] g2 d m
  have same: "write_python_wrappers (JObj [(''definitions'', JObj (rev defs_small))])
                = write_python_wrappers schema_small"
    by blast
  from r sorted_modules
  have "\<exists>ms index. write_python_wrappers schema_small = Inr (ms, index)
           \<and> map gm_module ms = [''color'', ''foo'']"
    by (intro exI conjI)
  with same show ?thesis by (rule conjI [rotated])
qed

end
